theory Spec2Isabelle
  imports Main "HOL-Library.Word"
begin

unbundle bit_operations_syntax

section \<open>Bytes, exceptions and streams\<close>

type_synonym byte = "8 word"
type_synonym bytes = "byte list"

text \<open>
  The exceptions the two files raise through \<^verbatim>\<open>EOS_ASSERT\<close>:
  \<^verbatim>\<open>state_history_exception\<close> with its message and \<^verbatim>\<open>fc::out_of_range_exception\<close>.
  The specification calls the first one \<^emph>\<open>MissingData\<close> (message
  \<^verbatim>\<open>missing trace for transaction\<close>) or \<^emph>\<open>UnsupportedOperation\<close> (messages
  \<^verbatim>\<open>Not implemented\<close> and \<^verbatim>\<open>state history log version 0 does not support trace pruning\<close>),
  and the second one \<^emph>\<open>OutOfRange\<close>. \<open>library_exception\<close> stands for whatever a
  collaborator outside the two files throws (inflating a broken stream, a variant tag out
  of range, a deserialiser that rejects its input). \<open>unsupported_operation\<close> is the
  specification's \<^emph>\<open>UnsupportedOperation\<close> where it is raised outside the two files: by
  \<^verbatim>\<open>prune_all\<close> of the chain library on a value in the state \<^verbatim>\<open>partial\<close>.
\<close>

datatype exn =
    state_history_exception string
  | out_of_range_exception
  | library_exception
  | unsupported_operation

text \<open>
  Modelled from the spec: \<^verbatim>\<open>fc::cfile\<close> and \<^verbatim>\<open>fc::datastream<char*>\<close> of the fc library
  are missing. They are the specification's byte sink with an explicit cursor, as far as
  the two files use it: \<^verbatim>\<open>write\<close>, \<^verbatim>\<open>tellp\<close> and \<^verbatim>\<open>seek\<close>/\<^verbatim>\<open>seekp\<close>. A file grows
  when it is written past its end; a datastream is a fixed buffer, and a write that does
  not fit throws \<^verbatim>\<open>out_of_range_exception\<close> and writes nothing.
\<close>

record stream =
  data :: bytes
  pos :: nat
  growable :: bool

definition overwrite :: "bytes \<Rightarrow> nat \<Rightarrow> bytes \<Rightarrow> bytes" where
  "overwrite buf at bs =
     take at buf @ replicate (at - length buf) 0 @ bs @ drop (at + length bs) buf"

definition stream_write :: "stream \<Rightarrow> bytes \<Rightarrow> exn option \<times> stream" where
  "stream_write strm bs =
     (if growable strm \<or> pos strm + length bs \<le> length (data strm)
      then (None, strm\<lparr>data := overwrite (data strm) (pos strm) bs,
                        pos := pos strm + length bs\<rparr>)
      else (Some out_of_range_exception, strm))"

definition tellp :: "stream \<Rightarrow> nat" where
  "tellp strm = pos strm"

definition seek :: "stream \<Rightarrow> nat \<Rightarrow> stream" where
  "seek strm position = strm\<lparr>pos := position\<rparr>"

text \<open>Sequencing of two stream actions: the second runs only when the first did not throw.\<close>

definition and_then ::
  "exn option \<times> 's \<Rightarrow> ('s \<Rightarrow> exn option \<times> 's) \<Rightarrow> exn option \<times> 's" where
  "and_then r f = (case r of (None, s) \<Rightarrow> f s | (Some e, s) \<Rightarrow> (Some e, s))"

text \<open>
  Modelled from the spec: \<^verbatim>\<open>fc::datastream<const char*>\<close> is missing. It is the
  specification's byte source over a buffer: the cursor is an offset into the buffer, and a
  read past the end throws.
\<close>

definition ds_read :: "bytes \<Rightarrow> nat \<Rightarrow> nat \<Rightarrow> exn + (bytes \<times> nat)" where
  "ds_read buf at n =
     (if at + n \<le> length buf then Inr (take n (drop at buf), at + n)
      else Inl out_of_range_exception)"

definition remaining_of :: "bytes \<Rightarrow> nat \<Rightarrow> nat" where
  "remaining_of buf at = length buf - at"

text \<open>
  Modelled from the spec: \<^verbatim>\<open>fc::raw::pack\<close> and \<^verbatim>\<open>fc::raw::unpack\<close> of a \<^verbatim>\<open>uint32_t\<close> are
  missing. The specification's 4-byte unsigned length: the four bytes of the number, lowest
  first.
\<close>

definition pack_uint32 :: "32 word \<Rightarrow> bytes" where
  "pack_uint32 w = [ucast w, ucast (drop_bit 8 w), ucast (drop_bit 16 w), ucast (drop_bit 24 w)]"

fun uint32_of :: "bytes \<Rightarrow> 32 word" where
  "uint32_of [b0, b1, b2, b3] =
     ucast b0 OR push_bit 8 (ucast b1) OR push_bit 16 (ucast b2) OR push_bit 24 (ucast b3)"
| "uint32_of _ = 0"

definition unpack_uint32 :: "bytes \<Rightarrow> nat \<Rightarrow> exn + (32 word \<times> nat)" where
  "unpack_uint32 buf at =
     (case ds_read buf at 4 of Inl e \<Rightarrow> Inl e | Inr (bs, at') \<Rightarrow> Inr (uint32_of bs, at'))"

section \<open>Compression adapters (compression.hpp)\<close>

text \<open>
  \<^verbatim>\<open>restriced_data_source\<close>: a source with a byte budget. The underlying stream is the
  template parameter \<^verbatim>\<open>STREAM\<close>; its \<^verbatim>\<open>read\<close> is the argument \<open>read_underlying\<close>, which
  returns what the stream's own read returns (or throws) and the stream after it.
\<close>

record 's restriced_data_source =
  src_strm :: 's
  remaining :: "64 word"


definition make_restricted_source :: "'s \<Rightarrow> 64 word \<Rightarrow> 's restriced_data_source" where
  "make_restricted_source st len = \<lparr>src_strm = st, remaining = len\<rparr>"

text \<open>
  \<^verbatim>\<open>length_writer\<close>: the constructor writes a zero \<^verbatim>\<open>uint32_t\<close> and remembers the position
  after it; the destructor computes \<^verbatim>\<open>end_pos - start_pos\<close> in 64 bits, truncates it to
  32 bits, writes it over the placeholder and seeks back to \<^verbatim>\<open>end_pos\<close>.
\<close>

definition length_writer_open :: "stream \<Rightarrow> exn option \<times> stream" where
  "length_writer_open strm = stream_write strm (pack_uint32 0)"

definition length_writer_close :: "stream \<Rightarrow> nat \<Rightarrow> exn option \<times> stream" where
  "length_writer_close strm start_pos =
     (let end_pos = tellp strm;
          len = (word_of_int (int end_pos - int start_pos) :: 32 word)
      in and_then (stream_write (seek strm (start_pos - 4)) (pack_uint32 len))
           (\<lambda>s. (None, seek s end_pos)))"

text \<open>
  \<^verbatim>\<open>is_empty\<close> has two overloads: \<^verbatim>\<open>false\<close> for any type, \<^verbatim>\<open>obj.empty()\<close> for a vector.
\<close>

definition is_empty :: "'a \<Rightarrow> bool" where
  "is_empty obj = False"

definition is_empty_vector :: "'a list \<Rightarrow> bool" where
  "is_empty_vector obj = (obj = [])"

text \<open>
  \<^verbatim>\<open>zlib_pack\<close>. The template picks the \<^verbatim>\<open>is_empty\<close> overload and the serialiser of the
  object's type: they are the arguments \<open>emp\<close> and \<open>raw_pack\<close>. \<open>compress\<close> is the
  zlib compressor (\<^verbatim>\<open>fc::zlib_compress_ostream\<close> over boost): the serialised object goes
  through it into the stream. The \<^verbatim>\<open>length_writer\<close> is destroyed last, also when the
  write threw.
\<close>

definition zlib_pack ::
  "(bytes \<Rightarrow> bytes) \<Rightarrow> ('a \<Rightarrow> bool) \<Rightarrow> ('a \<Rightarrow> bytes) \<Rightarrow> stream \<Rightarrow> 'a
     \<Rightarrow> exn option \<times> stream" where
  "zlib_pack compress emp raw_pack strm object =
     (if emp object then stream_write strm (pack_uint32 0)
      else (case length_writer_open strm of
              (Some e, s) \<Rightarrow> (Some e, s)
            | (None, s1) \<Rightarrow>
                (let start_pos = tellp s1 in
                 case stream_write s1 (compress (raw_pack object)) of
                   (thrown, s2) \<Rightarrow>
                     (case length_writer_close s2 start_pos of
                        (Some e, s3) \<Rightarrow> (Some e, s3)
                      | (None, s3) \<Rightarrow> (thrown, s3)))))"

text \<open>
  \<^verbatim>\<open>zlib_unpack(STREAM&, T&)\<close>: the stream is a buffer with a cursor. With a non-zero
  length the object is read through a decompressing stream over a restricted source; that
  whole step is the argument \<open>inflate_unpack\<close>. With a zero length the object is left as
  it was.
\<close>

definition zlib_unpack_stream ::
  "((bytes \<times> nat) restriced_data_source \<Rightarrow> exn + ('a \<times> nat)) \<Rightarrow> bytes \<Rightarrow> nat \<Rightarrow> 'a
     \<Rightarrow> exn + ('a \<times> nat)" where
  "zlib_unpack_stream inflate_unpack buf at obj =
     (case unpack_uint32 buf at of
        Inl e \<Rightarrow> Inl e
      | Inr (len, at') \<Rightarrow>
          if len > 0 then inflate_unpack (make_restricted_source (buf, at') (ucast len))
          else Inr (obj, at'))"

text \<open>
  \<^verbatim>\<open>zlib_unpack(const char* buffer, fc::datastream<const char*>& ds, Object& obj)\<close>:
  \<open>decompress\<close> inflates the \<open>len\<close> bytes at the cursor (\<open>None\<close> when boost throws),
  \<open>raw_unpack\<close> deserialises the object from the inflated bytes.
\<close>

definition zlib_unpack ::
  "(bytes \<Rightarrow> bytes option) \<Rightarrow> (bytes \<Rightarrow> 'a option) \<Rightarrow> bytes \<Rightarrow> nat \<Rightarrow> 'a
     \<Rightarrow> exn + ('a \<times> nat)" where
  "zlib_unpack decompress raw_unpack buf at obj =
     (case unpack_uint32 buf at of
        Inl e \<Rightarrow> Inl e
      | Inr (len, at') \<Rightarrow>
          if len = 0 then Inr (obj, at')
          else if \<not> remaining_of buf at' \<ge> unat len then Inl out_of_range_exception
          else (case decompress (take (unat len) (drop at' buf)) of
                  None \<Rightarrow> Inl library_exception
                | Some decompressed \<Rightarrow>
                    (case raw_unpack decompressed of
                       None \<Rightarrow> Inl library_exception
                     | Some v \<Rightarrow> Inr (v, at' + unat len))))"

section \<open>Prunable data and its sections (trace\_converter.cpp)\<close>

text \<open>
  \<^verbatim>\<open>packed_transaction::prunable_data_type\<close> is declared in the chain library. The two
  files use its four alternatives in the order in which \<^verbatim>\<open>restore_partial\<close> lists them, the
  members \<^verbatim>\<open>signatures\<close> and \<^verbatim>\<open>context_free_segments\<close> of every alternative but
  \<^verbatim>\<open>none\<close>, and serialise \<^verbatim>\<open>none\<close> with \<^verbatim>\<open>fc::raw::pack\<close>: its content is the type
  parameter \<open>'dig\<close>. The segments of \<^verbatim>\<open>partial\<close> have a type of their own, \<open>'seg\<close>.
\<close>

datatype ('sig, 'dig, 'seg) prunable_data_type =
    full_legacy "'sig list" "bytes list"
  | none 'dig
  | partial "'sig list" "'seg list"
  | full "'sig list" "bytes list"

fun which :: "('sig, 'dig, 'seg) prunable_data_type \<Rightarrow> byte" where
  "which (full_legacy sg cf) = 0"
| "which (none d) = 1"
| "which (partial sg cf) = 2"
| "which (full sg cf) = 3"

text \<open>
  The collaborators of the two files that are not part of them: \<^verbatim>\<open>fc::raw\<close> for the content
  of \<^verbatim>\<open>none\<close>, for a vector of signatures and for the vectors of segments; zlib; and
  \<^verbatim>\<open>prunable_digest\<close>, from which \<^verbatim>\<open>prune_all\<close> builds its result. A deserialiser reads
  from the bytes at the cursor and returns the value with the number of bytes it consumed;
  the deserialiser of the segments reads the inflated bytes.
\<close>

record ('sig, 'dig, 'seg) raw_codec =
  pack_none :: "'dig \<Rightarrow> bytes"
  unpack_none :: "bytes \<Rightarrow> ('dig \<times> nat) option"
  pack_signatures :: "'sig list \<Rightarrow> bytes"
  unpack_signatures :: "bytes \<Rightarrow> ('sig list \<times> nat) option"
  pack_segments :: "bytes list \<Rightarrow> bytes"
  unpack_segments :: "bytes \<Rightarrow> bytes list option"
  pack_partial_segments :: "'seg list \<Rightarrow> bytes"
  unpack_partial_segments :: "bytes \<Rightarrow> 'seg list option"
  zlib_compress :: "bytes \<Rightarrow> bytes"
  zlib_decompress :: "bytes \<Rightarrow> bytes option"
  prunable_digest :: "('sig, 'dig, 'seg) prunable_data_type \<Rightarrow> 'dig"

text \<open>
  Modelled from the spec: \<^verbatim>\<open>prunable_data_type::prune_all\<close> of the chain library is missing.
  The specification calls its result the fully-stripped form carrying neither signatures
  nor context-free data, and the comment of \<^verbatim>\<open>trace_pruner::operator()\<close> says that it
  converts to \<^verbatim>\<open>prunable_data::none\<close>. The specification has the redaction of a value in
  the state \<^verbatim>\<open>partial\<close> fail with \<^emph>\<open>UnsupportedOperation\<close>; \<^verbatim>\<open>prune\<close> hands every such
  value that has a signature or a segment to \<^verbatim>\<open>prune_all\<close>, so this is where it fails.
\<close>

fun prune_all ::
  "('sig, 'dig, 'seg, 'z) raw_codec_scheme \<Rightarrow> ('sig, 'dig, 'seg) prunable_data_type
     \<Rightarrow> exn + ('sig, 'dig, 'seg) prunable_data_type" where
  "prune_all c (partial sg cf) = Inl unsupported_operation"
| "prune_all c obj = Inr (none (prunable_digest c obj))"

text \<open>
  \<^verbatim>\<open>prune\<close>: \<^verbatim>\<open>none\<close> is returned as it is; the generic lambda takes the three other
  alternatives, returns the value as it is when it has neither a signature nor a segment,
  and calls \<^verbatim>\<open>prune_all\<close> otherwise.
\<close>

fun prune ::
  "('sig, 'dig, 'seg, 'z) raw_codec_scheme \<Rightarrow> ('sig, 'dig, 'seg) prunable_data_type
     \<Rightarrow> exn + ('sig, 'dig, 'seg) prunable_data_type" where
  "prune c (none elem) = Inr (none elem)"
| "prune c (full_legacy sg cf) =
     (if sg = [] \<and> cf = [] then Inr (full_legacy sg cf) else prune_all c (full_legacy sg cf))"
| "prune c (partial sg cf) =
     (if sg = [] \<and> cf = [] then Inr (partial sg cf) else prune_all c (partial sg cf))"
| "prune c (full sg cf) =
     (if sg = [] \<and> cf = [] then Inr (full sg cf) else prune_all c (full sg cf))"

text \<open>\<^verbatim>\<open>pack(STREAM&, const prunable_data_type&)\<close>: the tag byte, then the alternative.\<close>

definition pack ::
  "('sig, 'dig, 'seg, 'z) raw_codec_scheme \<Rightarrow> stream \<Rightarrow> ('sig, 'dig, 'seg) prunable_data_type
     \<Rightarrow> exn option \<times> stream" where
  "pack c st obj =
     and_then (stream_write st [which obj])
       (\<lambda>s. case obj of
               none d \<Rightarrow> stream_write s (pack_none c d)
             | full_legacy sg cf \<Rightarrow>
                 and_then (stream_write s (pack_signatures c sg))
                   (\<lambda>s. zlib_pack (zlib_compress c) is_empty_vector (pack_segments c) s cf)
             | partial sg cf \<Rightarrow>
                 and_then (stream_write s (pack_signatures c sg))
                   (\<lambda>s. zlib_pack (zlib_compress c) is_empty_vector
                           (pack_partial_segments c) s cf)
             | full sg cf \<Rightarrow>
                 and_then (stream_write s (pack_signatures c sg))
                   (\<lambda>s. zlib_pack (zlib_compress c) is_empty_vector (pack_segments c) s cf))"

text \<open>
  \<^verbatim>\<open>fc::raw::unpack(ds, obj)\<close> on a datastream: the deserialiser \<open>parse\<close> reads at the
  cursor; the datastream throws when it is asked for bytes it does not have.
\<close>

definition raw_unpack ::
  "(bytes \<Rightarrow> ('a \<times> nat) option) \<Rightarrow> bytes \<Rightarrow> nat \<Rightarrow> exn + ('a \<times> nat)" where
  "raw_unpack parse buf at =
     (case parse (drop at buf) of
        None \<Rightarrow> Inl library_exception
      | Some (v, k) \<Rightarrow>
          if at + k \<le> length buf then Inr (v, at + k) else Inl out_of_range_exception)"

text \<open>
  The \<^verbatim>\<open>unpack\<close> overload for an alternative with \<^verbatim>\<open>context_free_segments\<close>: the
  signatures, then the compressed segments (which start out empty).
\<close>

definition unpack_with_segments ::
  "('sig, 'dig, 'seg, 'z) raw_codec_scheme \<Rightarrow> (bytes \<Rightarrow> 'b list option) \<Rightarrow> bytes \<Rightarrow> nat
     \<Rightarrow> exn + (('sig list \<times> 'b list) \<times> nat)" where
  "unpack_with_segments c raw_segments buf at =
     (case raw_unpack (unpack_signatures c) buf at of
        Inl e \<Rightarrow> Inl e
      | Inr (sg, at1) \<Rightarrow>
          (case zlib_unpack (zlib_decompress c) raw_segments buf at1 [] of
             Inl e \<Rightarrow> Inl e
           | Inr (cf, at2) \<Rightarrow> Inr ((sg, cf), at2)))"

text \<open>
  \<^verbatim>\<open>unpack(const char*, fc::datastream<const char*>&, prunable_data_type&)\<close>: the tag
  byte, \<^verbatim>\<open>set_which\<close> (which throws on a tag that names no alternative), then the overload
  of the alternative.
\<close>

definition unpack ::
  "('sig, 'dig, 'seg, 'z) raw_codec_scheme \<Rightarrow> bytes \<Rightarrow> nat
     \<Rightarrow> exn + (('sig, 'dig, 'seg) prunable_data_type \<times> nat)" where
  "unpack c buf at =
     (case ds_read buf at 1 of
        Inl e \<Rightarrow> Inl e
      | Inr (tag, at1) \<Rightarrow>
          if tag = [0] then
            (case unpack_with_segments c (unpack_segments c) buf at1 of
               Inl e \<Rightarrow> Inl e
             | Inr ((sg, cf), at2) \<Rightarrow> Inr (full_legacy sg cf, at2))
          else if tag = [1] then
            (case raw_unpack (unpack_none c) buf at1 of
               Inl e \<Rightarrow> Inl e
             | Inr (d, at2) \<Rightarrow> Inr (none d, at2))
          else if tag = [2] then
            (case unpack_with_segments c (unpack_partial_segments c) buf at1 of
               Inl e \<Rightarrow> Inl e
             | Inr ((sg, cf), at2) \<Rightarrow> Inr (partial sg cf, at2))
          else if tag = [3] then
            (case unpack_with_segments c (unpack_segments c) buf at1 of
               Inl e \<Rightarrow> Inl e
             | Inr ((sg, cf), at2) \<Rightarrow> Inr (full sg cf, at2))
          else Inl library_exception)"

section \<open>Traces as the log stores them\<close>

text \<open>
  \<^verbatim>\<open>transaction_trace_v0\<close> and \<^verbatim>\<open>partial_transaction_v0\<close> of the state-history
  protocol, with the members the two files touch; \<open>'a\<close> holds the others.
  \<^verbatim>\<open>failed_dtrx_trace\<close> is a vector of which only the first element is ever visited.
\<close>

datatype ('sig, 'a) partial_transaction_v0 =
  partial_transaction_v0 (signatures: "'sig list") (context_free_data: "bytes list")
    (ptrx_other: 'a)

datatype ('id, 'sig, 'a) transaction_trace_v0 =
  transaction_trace_v0 (trace_id: 'id)
    (trace_failed_dtrx_trace: "('id, 'sig, 'a) transaction_trace_v0 list")
    (trace_partial: "('sig, 'a) partial_transaction_v0 option") (trace_other: 'a)

text \<open>
  The traces as the chain hands them over: \<^verbatim>\<open>chain::transaction_trace\<close> with its id, its
  optional receipt and its optional failed deferred trace, and \<^verbatim>\<open>packed_transaction\<close>
  with \<^verbatim>\<open>id()\<close> and \<^verbatim>\<open>get_prunable_data()\<close>; \<open>'a\<close> holds the rest.
\<close>

datatype ('id, 'a) chain_trace =
  chain_trace (c_id: 'id) (c_receipt: "'a option")
    (c_failed_dtrx_trace: "('id, 'a) chain_trace option") (c_other: 'a)

datatype ('id, 'sig, 'dig, 'seg, 'a) packed_transaction =
  packed_transaction (trx_id: 'id) (get_prunable_data: "('sig, 'dig, 'seg) prunable_data_type")
    (trx_other: 'a)

record ('id, 'sig, 'dig, 'seg, 'a) augmented_transaction_trace =
  trace :: "('id, 'a) chain_trace"
  packed_trx :: "('id, 'sig, 'dig, 'seg, 'a) packed_transaction option"

text \<open>
  The serialisers of a vector of traces: \<^verbatim>\<open>fc::raw\<close> for the traces of the protocol, and
  the \<^verbatim>\<open>history_context_wrapper\<close> of serialization.hpp (with the database it reads, the
  debug mode and the version) for the traces of the chain.
\<close>

record ('sig, 'dig, 'seg, 'id, 'a) trace_codec = "('sig, 'dig, 'seg) raw_codec" +
  pack_traces :: "('id, 'sig, 'a) transaction_trace_v0 list \<Rightarrow> bytes"
  unpack_traces :: "bytes \<Rightarrow> ('id, 'sig, 'a) transaction_trace_v0 list option"
  pack_history_context_wrapper ::
    "bool \<Rightarrow> 32 word \<Rightarrow> ('id, 'sig, 'dig, 'seg, 'a) augmented_transaction_trace list \<Rightarrow> bytes"

fun restore_partial ::
  "('sig, 'a) partial_transaction_v0 \<Rightarrow> ('sig, 'dig, 'seg) prunable_data_type
     \<Rightarrow> exn + ('sig, 'a) partial_transaction_v0" where
  "restore_partial (partial_transaction_v0 sg0 cf0 x) (full_legacy sg cf) =
     Inr (partial_transaction_v0 sg cf x)"
| "restore_partial ptrx (none d) = Inr ptrx"
| "restore_partial ptrx (partial sg cf) = Inl (state_history_exception ''Not implemented'')"
| "restore_partial (partial_transaction_v0 sg0 cf0 x) (full sg cf) =
     Inr (partial_transaction_v0 sg cf x)"

text \<open>
  \<^verbatim>\<open>visit_deserialized_trace\<close> with the visitor of \<^verbatim>\<open>to_traces_bin_v0\<close>: the failed
  deferred trace first, then the trace's own prunable section when it has a partial
  transaction. The entry is read only; the cursor and the traces change.
\<close>

fun visit_deserialized_trace_restore ::
  "('sig, 'dig, 'seg, 'z) raw_codec_scheme \<Rightarrow> bytes \<Rightarrow> ('id, 'sig, 'a) transaction_trace_v0
     \<Rightarrow> nat \<Rightarrow> exn + (('id, 'sig, 'a) transaction_trace_v0 \<times> nat)" where
  "visit_deserialized_trace_restore c buf (transaction_trace_v0 i failed part x) at =
     (case (case failed of
              [] \<Rightarrow> Inr ([], at)
            | f # fs \<Rightarrow>
                (case visit_deserialized_trace_restore c buf f at of
                   Inl e \<Rightarrow> Inl e
                 | Inr (f', at1) \<Rightarrow> Inr (f' # fs, at1))) of
        Inl e \<Rightarrow> Inl e
      | Inr (failed', at1) \<Rightarrow>
          (case part of
             None \<Rightarrow> Inr (transaction_trace_v0 i failed' None x, at1)
           | Some ptrx \<Rightarrow>
               (case unpack c buf at1 of
                  Inl e \<Rightarrow> Inl e
                | Inr (prunable, at2) \<Rightarrow>
                    (case restore_partial ptrx prunable of
                       Inl e \<Rightarrow> Inl e
                     | Inr ptrx' \<Rightarrow>
                         Inr (transaction_trace_v0 i failed' (Some ptrx') x, at2)))))"

fun restore_traces ::
  "('sig, 'dig, 'seg, 'z) raw_codec_scheme \<Rightarrow> bytes \<Rightarrow> ('id, 'sig, 'a) transaction_trace_v0 list
     \<Rightarrow> nat \<Rightarrow> exn + (('id, 'sig, 'a) transaction_trace_v0 list \<times> nat)" where
  "restore_traces c buf [] at = Inr ([], at)"
| "restore_traces c buf (t # ts) at =
     (case visit_deserialized_trace_restore c buf t at of
        Inl e \<Rightarrow> Inl e
      | Inr (t', at1) \<Rightarrow>
          (case restore_traces c buf ts at1 of
             Inl e \<Rightarrow> Inl e
           | Inr (ts', at2) \<Rightarrow> Inr (t' # ts', at2)))"

definition to_traces_bin_v0 ::
  "('sig, 'dig, 'seg, 'id, 'a, 'z) trace_codec_scheme \<Rightarrow> bytes \<Rightarrow> 32 word \<Rightarrow> exn + bytes" where
  "to_traces_bin_v0 c entry_payload version =
     (if version = 0 then
        (case zlib_decompress c entry_payload of
           None \<Rightarrow> Inl library_exception
         | Some b \<Rightarrow> Inr b)
      else
        (case zlib_unpack (zlib_decompress c) (unpack_traces c) entry_payload 0 [] of
           Inl e \<Rightarrow> Inl e
         | Inr (traces, at) \<Rightarrow>
             (case restore_traces c entry_payload traces at of
                Inl e \<Rightarrow> Inl e
              | Inr (traces', at') \<Rightarrow> Inr (pack_traces c traces'))))"

section \<open>The pruning engine\<close>

text \<open>
  \<^verbatim>\<open>struct trace_pruner\<close>. The read stream and the write stream are cursors into the one
  \<open>buffer\<close>, so each is an offset; \<open>ids\<close> is the caller's vector.
\<close>

record 'id trace_pruner =
  buffer :: bytes
  last_read_pos :: nat
  ids :: "'id list"
  read_strm :: nat
  write_strm :: nat
  change_position :: nat

definition trace_pruner_init :: "bytes \<Rightarrow> nat \<Rightarrow> 'id list \<Rightarrow> 'id trace_pruner" where
  "trace_pruner_init entry_payload rds tids =
     \<lparr>buffer = entry_payload, last_read_pos = rds, ids = tids, read_strm = rds,
      write_strm = 0 + rds, change_position = 0\<rparr>"

text \<open>
  \<^verbatim>\<open>trace_pruner::operator()\<close>. \<^verbatim>\<open>std::find\<close> and \<^verbatim>\<open>erase\<close> take the first occurrence of
  the id. \<^verbatim>\<open>prune\<close> is evaluated before \<^verbatim>\<open>pack\<close> is called: when it throws, nothing is
  written, and \<^verbatim>\<open>change_position\<close> has been set already. A write that throws leaves
  what was written before it, and the statements after it do not run.
\<close>

definition trace_pruner_call ::
  "('sig, 'dig, 'seg, 'z) raw_codec_scheme \<Rightarrow> 'id \<Rightarrow> ('sig, 'dig, 'seg) prunable_data_type
     \<Rightarrow> 'id trace_pruner \<Rightarrow> exn option \<times> 'id trace_pruner" where
  "trace_pruner_call c tid incoming_prunable pr =
     (if tid \<in> set (ids pr) then
        (let pr1 = (if change_position pr = 0 then pr\<lparr>change_position := write_strm pr\<rparr>
                    else pr)
         in case prune c incoming_prunable of
              Inl e \<Rightarrow> (Some e, pr1)
            | Inr pruned \<Rightarrow>
                (case pack c \<lparr>data = buffer pr1, pos = write_strm pr1, growable = False\<rparr>
                        pruned of
                   (thrown, s) \<Rightarrow>
                     (let pr2 = pr1\<lparr>buffer := data s, write_strm := pos s\<rparr>
                      in case thrown of
                           Some e \<Rightarrow> (Some e, pr2)
                         | None \<Rightarrow>
                             (None, pr2\<lparr>ids := remove1 tid (ids pr2),
                                         last_read_pos := read_strm pr2\<rparr>))))
      else if change_position pr = 0 then
        (None, pr\<lparr>write_strm := write_strm pr + (read_strm pr - last_read_pos pr),
                   last_read_pos := read_strm pr\<rparr>)
      else
        (case stream_write \<lparr>data = buffer pr, pos = write_strm pr, growable = False\<rparr>
                (take (read_strm pr - last_read_pos pr) (drop (last_read_pos pr) (buffer pr))) of
           (Some e, s) \<Rightarrow> (Some e, pr)
         | (None, s) \<Rightarrow>
             (None, pr\<lparr>buffer := data s, write_strm := pos s,
                        last_read_pos := read_strm pr\<rparr>)))"

definition changed_region :: "'id trace_pruner \<Rightarrow> nat \<times> nat" where
  "changed_region pr =
     (if change_position pr = 0 then (0, 0) else (change_position pr, write_strm pr))"

text \<open>
  \<^verbatim>\<open>visit_deserialized_trace\<close> with the \<^verbatim>\<open>trace_pruner\<close> as its visitor: the section is
  read from the pruner's buffer at the read cursor.
\<close>

fun visit_deserialized_trace_prune ::
  "('sig, 'dig, 'seg, 'z) raw_codec_scheme \<Rightarrow> ('id, 'sig, 'a) transaction_trace_v0
     \<Rightarrow> 'id trace_pruner \<Rightarrow> exn option \<times> 'id trace_pruner" where
  "visit_deserialized_trace_prune c (transaction_trace_v0 i failed part x) pr =
     and_then (case failed of
                 [] \<Rightarrow> (None, pr)
               | f # fs \<Rightarrow> visit_deserialized_trace_prune c f pr)
       (\<lambda>pr1. case part of
                 None \<Rightarrow> (None, pr1)
               | Some ptrx \<Rightarrow>
                   (case unpack c (buffer pr1) (read_strm pr1) of
                      Inl e \<Rightarrow> (Some e, pr1)
                    | Inr (prunable, at) \<Rightarrow>
                        trace_pruner_call c i prunable (pr1\<lparr>read_strm := at\<rparr>)))"

fun prune_each ::
  "('sig, 'dig, 'seg, 'z) raw_codec_scheme \<Rightarrow> ('id, 'sig, 'a) transaction_trace_v0 list
     \<Rightarrow> 'id trace_pruner \<Rightarrow> exn option \<times> 'id trace_pruner" where
  "prune_each c [] pr = (None, pr)"
| "prune_each c (t # ts) pr =
     and_then (visit_deserialized_trace_prune c t pr) (prune_each c ts)"

text \<open>
  \<^verbatim>\<open>trace_converter::prune_traces\<close>. The result comes with the entry and the id list as the
  call leaves them, also when it throws.
\<close>

definition prune_traces ::
  "('sig, 'dig, 'seg, 'id, 'a, 'z) trace_codec_scheme \<Rightarrow> bytes \<Rightarrow> 32 word \<Rightarrow> 'id list
     \<Rightarrow> (exn + (nat \<times> nat)) \<times> bytes \<times> 'id list" where
  "prune_traces c entry_payload version tids =
     (if \<not> version > 0 then
        (Inl (state_history_exception
                ''state history log version 0 does not support trace pruning''),
         entry_payload, tids)
      else
        (case zlib_unpack (zlib_decompress c) (unpack_traces c) entry_payload 0 [] of
           Inl e \<Rightarrow> (Inl e, entry_payload, tids)
         | Inr (traces, rds) \<Rightarrow>
             (case prune_each c traces (trace_pruner_init entry_payload rds tids) of
                (Some e, pr) \<Rightarrow> (Inl e, buffer pr, ids pr)
              | (None, pr) \<Rightarrow> (Inr (changed_region pr), buffer pr, ids pr))))"

section \<open>The trace accumulator\<close>

record ('id, 'sig, 'dig, 'seg, 'a) trace_converter =
  cached_traces :: "'id \<rightharpoonup> ('id, 'sig, 'dig, 'seg, 'a) augmented_transaction_trace"
  onblock_trace :: "('id, 'sig, 'dig, 'seg, 'a) augmented_transaction_trace option"

text \<open>
  The loop of \<^verbatim>\<open>prepare_traces\<close> over the block's transactions, each an id or a packed
  transaction: the \<^verbatim>\<open>EOS_ASSERT\<close> throws out of the loop.
\<close>

fun find_traces ::
  "('id \<rightharpoonup> ('id, 'sig, 'dig, 'seg, 'a) augmented_transaction_trace)
     \<Rightarrow> ('id + ('id, 'sig, 'dig, 'seg, 'a) packed_transaction) list
     \<Rightarrow> ('id, 'sig, 'dig, 'seg, 'a) augmented_transaction_trace list
     \<Rightarrow> exn + ('id, 'sig, 'dig, 'seg, 'a) augmented_transaction_trace list" where
  "find_traces cache [] traces = Inr traces"
| "find_traces cache (r # rs) traces =
     (let tid = (case r of Inl i \<Rightarrow> i | Inr pt \<Rightarrow> trx_id pt) in
      case cache tid of
        None \<Rightarrow> Inl (state_history_exception ''missing trace for transaction ${id}'')
      | Some found \<Rightarrow>
          if c_receipt (trace found) = None
          then Inl (state_history_exception ''missing trace for transaction ${id}'')
          else find_traces cache rs (traces @ [found]))"

definition prepare_traces ::
  "('id, 'sig, 'dig, 'seg, 'a) trace_converter
     \<Rightarrow> ('id + ('id, 'sig, 'dig, 'seg, 'a) packed_transaction) list
     \<Rightarrow> (exn + ('id, 'sig, 'dig, 'seg, 'a) augmented_transaction_trace list)
         \<times> ('id, 'sig, 'dig, 'seg, 'a) trace_converter" where
  "prepare_traces converter transactions =
     (case find_traces (cached_traces converter) transactions
             (case onblock_trace converter of None \<Rightarrow> [] | Some t \<Rightarrow> [t]) of
        Inl e \<Rightarrow> (Inl e, converter)
      | Inr traces \<Rightarrow>
          (Inr traces, converter\<lparr>cached_traces := Map.empty, onblock_trace := None\<rparr>))"

section \<open>Writing an entry\<close>

text \<open>
  \<^verbatim>\<open>for_each_packed_transaction\<close> on one trace: the failed deferred trace first, with the
  same packed transaction, then the lambda when there is a packed transaction and no
  failed deferred trace.
\<close>

fun for_each_packed_transaction ::
  "('id, 'a) chain_trace \<Rightarrow> 'p option \<Rightarrow> ('p \<Rightarrow> 's \<Rightarrow> exn option \<times> 's) \<Rightarrow> 's
     \<Rightarrow> exn option \<times> 's" where
  "for_each_packed_transaction (chain_trace i rc failed x) ptrx lam s =
     and_then (case failed of
                 Some ft \<Rightarrow> for_each_packed_transaction ft ptrx lam s
               | None \<Rightarrow> (None, s))
       (\<lambda>s1. case ptrx of
                Some pt \<Rightarrow> if failed = None then lam pt s1 else (None, s1)
              | None \<Rightarrow> (None, s1))"

fun for_each_packed_transactions ::
  "('id, 'sig, 'dig, 'seg, 'a) augmented_transaction_trace list
     \<Rightarrow> (('id, 'sig, 'dig, 'seg, 'a) packed_transaction \<Rightarrow> 's \<Rightarrow> exn option \<times> 's) \<Rightarrow> 's
     \<Rightarrow> exn option \<times> 's" where
  "for_each_packed_transactions [] lam s = (None, s)"
| "for_each_packed_transactions (v # vs) lam s =
     and_then (for_each_packed_transaction (trace v) (packed_trx v) lam s)
       (for_each_packed_transactions vs lam)"

definition pack_unprunable ::
  "('sig, 'dig, 'seg, 'id, 'a, 'z) trace_codec_scheme \<Rightarrow> stream \<Rightarrow> bool \<Rightarrow> 32 word
     \<Rightarrow> ('id, 'sig, 'dig, 'seg, 'a) augmented_transaction_trace list \<Rightarrow> exn option \<times> stream" where
  "pack_unprunable c file trace_debug_mode version traces =
     zlib_pack (zlib_compress c) is_empty
       (pack_history_context_wrapper c trace_debug_mode version) file traces"

text \<open>
  The body of \<^verbatim>\<open>trace_converter::pack\<close> after \<^verbatim>\<open>prepare_traces\<close>. In version 1 the
  \<^verbatim>\<open>length_writer\<close> spans the unprunable section and the prunable sections.
\<close>

definition pack_entry ::
  "('sig, 'dig, 'seg, 'id, 'a, 'z) trace_codec_scheme \<Rightarrow> stream \<Rightarrow> bool
     \<Rightarrow> ('id, 'sig, 'dig, 'seg, 'a) augmented_transaction_trace list \<Rightarrow> 32 word
     \<Rightarrow> exn option \<times> stream" where
  "pack_entry c file trace_debug_mode traces version =
     (if version = 0 then pack_unprunable c file trace_debug_mode version traces
      else (case length_writer_open file of
              (Some e, f) \<Rightarrow> (Some e, f)
            | (None, f1) \<Rightarrow>
                (let start_pos = tellp f1 in
                 case and_then (pack_unprunable c f1 trace_debug_mode version traces)
                        (for_each_packed_transactions traces
                           (\<lambda>pt f. pack c f (get_prunable_data pt))) of
                   (thrown, f2) \<Rightarrow>
                     (case length_writer_close f2 start_pos of
                        (Some e, f3) \<Rightarrow> (Some e, f3)
                      | (None, f3) \<Rightarrow> (thrown, f3)))))"

definition trace_converter_pack ::
  "('sig, 'dig, 'seg, 'id, 'a, 'z) trace_codec_scheme \<Rightarrow> stream \<Rightarrow> bool
     \<Rightarrow> ('id, 'sig, 'dig, 'seg, 'a) trace_converter
     \<Rightarrow> ('id + ('id, 'sig, 'dig, 'seg, 'a) packed_transaction) list \<Rightarrow> 32 word
     \<Rightarrow> exn option \<times> stream \<times> ('id, 'sig, 'dig, 'seg, 'a) trace_converter" where
  "trace_converter_pack c file trace_debug_mode converter transactions version =
     (case prepare_traces converter transactions of
        (Inl e, converter') \<Rightarrow> (Some e, file, converter')
      | (Inr traces, converter') \<Rightarrow>
          (case pack_entry c file trace_debug_mode traces version of
             (thrown, file') \<Rightarrow> (thrown, file', converter')))"

text \<open>
  Modelled from the spec: the log that stores an entry and hands it back is missing. An
  entry starts with the 32-bit count of the bytes that follow it, and these bytes are the
  payload which \<^verbatim>\<open>to_traces_bin_v0\<close> and \<^verbatim>\<open>prune_traces\<close> receive: the compressed blob
  in version 0, the unprunable section and the prunable sections in version 1.
\<close>

definition encode ::
  "('sig, 'dig, 'seg, 'id, 'a, 'z) trace_codec_scheme \<Rightarrow> bool \<Rightarrow> 32 word
     \<Rightarrow> ('id, 'sig, 'dig, 'seg, 'a) augmented_transaction_trace list \<Rightarrow> bytes" where
  "encode c trace_debug_mode version traces =
     drop 4 (data (snd (pack_entry c \<lparr>data = [], pos = 0, growable = True\<rparr>
                          trace_debug_mode traces version)))"

section \<open>What the properties are stated with\<close>

text \<open>The bytes of one prunable section, written to an empty file.\<close>

definition encoding ::
  "('sig, 'dig, 'seg, 'z) raw_codec_scheme \<Rightarrow> ('sig, 'dig, 'seg) prunable_data_type \<Rightarrow> bytes" where
  "encoding c obj = data (snd (pack c \<lparr>data = [], pos = 0, growable = True\<rparr> obj))"

text \<open>
  The bytes \<^verbatim>\<open>zlib_pack\<close> and \<^verbatim>\<open>pack\<close> put at the cursor when nothing throws, the stream
  after them, and the condition under which nothing throws.
\<close>

definition zlib_packed ::
  "(bytes \<Rightarrow> bytes) \<Rightarrow> ('a \<Rightarrow> bool) \<Rightarrow> ('a \<Rightarrow> bytes) \<Rightarrow> 'a \<Rightarrow> bytes" where
  "zlib_packed compress emp raw_pack object =
     (if emp object then pack_uint32 0
      else pack_uint32 (of_nat (length (compress (raw_pack object)))) @
           compress (raw_pack object))"

definition packed ::
  "('sig, 'dig, 'seg, 'z) raw_codec_scheme \<Rightarrow> ('sig, 'dig, 'seg) prunable_data_type \<Rightarrow> bytes" where
  "packed c obj =
     which obj #
       (case obj of
          none d \<Rightarrow> pack_none c d
        | full_legacy sg cf \<Rightarrow>
            pack_signatures c sg @
              zlib_packed (zlib_compress c) is_empty_vector (pack_segments c) cf
        | partial sg cf \<Rightarrow>
            pack_signatures c sg @
              zlib_packed (zlib_compress c) is_empty_vector (pack_partial_segments c) cf
        | full sg cf \<Rightarrow>
            pack_signatures c sg @
              zlib_packed (zlib_compress c) is_empty_vector (pack_segments c) cf)"

definition put :: "stream \<Rightarrow> bytes \<Rightarrow> stream" where
  "put st bs = st\<lparr>data := overwrite (data st) (pos st) bs, pos := pos st + length bs\<rparr>"

definition room :: "stream \<Rightarrow> nat \<Rightarrow> bool" where
  "room st n = (pos st \<le> length (data st) \<and> (growable st \<or> pos st + n \<le> length (data st)))"

section \<open>A sample of the collaborators\<close>

text \<open>
  A sample of the collaborators, with the sizes of the chain library: the content of
  \<^verbatim>\<open>none\<close> is a digest of 32 bytes, a signature has 66 bytes, a count is one byte. On the
  two bytes \<open>01 00\<close> the compressor gives the ten bytes which zlib's deflate gives at its
  default level; elsewhere it stands in for zlib by putting the two header bytes before
  its input. A trace is stored as the byte of its id and read back with an empty partial
  transaction.
\<close>

fun chunks :: "nat \<Rightarrow> nat \<Rightarrow> bytes \<Rightarrow> bytes list" where
  "chunks k 0 bs = []"
| "chunks k (Suc n) bs = take k bs # chunks k n (drop k bs)"

definition sample_pack_signatures :: "bytes list \<Rightarrow> bytes" where
  "sample_pack_signatures sg = of_nat (length sg) # concat sg"

definition sample_unpack_signatures :: "bytes \<Rightarrow> (bytes list \<times> nat) option" where
  "sample_unpack_signatures bs =
     (case bs of
        [] \<Rightarrow> None
      | n # r \<Rightarrow>
          if 66 * unat n \<le> length r then Some (chunks 66 (unat n) r, 1 + 66 * unat n)
          else None)"

definition sample_unpack_none :: "bytes \<Rightarrow> (bytes \<times> nat) option" where
  "sample_unpack_none bs = (if 32 \<le> length bs then Some (take 32 bs, 32) else None)"

definition sample_pack_segments :: "bytes list \<Rightarrow> bytes" where
  "sample_pack_segments segs =
     of_nat (length segs) # concat (map (\<lambda>s. of_nat (length s) # s) segs)"

fun segments_of :: "nat \<Rightarrow> bytes \<Rightarrow> bytes list option" where
  "segments_of 0 bs = Some []"
| "segments_of (Suc n) [] = None"
| "segments_of (Suc n) (l # r) =
     (if unat l \<le> length r
      then map_option (\<lambda>segs. take (unat l) r # segs) (segments_of n (drop (unat l) r))
      else None)"

definition sample_unpack_segments :: "bytes \<Rightarrow> bytes list option" where
  "sample_unpack_segments bs = (case bs of [] \<Rightarrow> None | n # r \<Rightarrow> segments_of (unat n) r)"

definition sample_compress :: "bytes \<Rightarrow> bytes" where
  "sample_compress b =
     (if b = [1, 0] then [0x78, 0x9C, 0x63, 0x64, 0, 0, 0, 4, 0, 2] else 0x78 # 0x01 # b)"

definition sample_decompress :: "bytes \<Rightarrow> bytes option" where
  "sample_decompress z =
     (if z = [0x78, 0x9C, 0x63, 0x64, 0, 0, 0, 4, 0, 2] then Some [1, 0]
      else (case z of a # b # r \<Rightarrow> if a = 0x78 \<and> b = 0x01 then Some r else None | _ \<Rightarrow> None))"

definition sample_codec :: "(bytes, bytes, bytes, nat, unit) trace_codec" where
  "sample_codec =
     \<lparr>pack_none = (\<lambda>d. d), unpack_none = sample_unpack_none,
      pack_signatures = sample_pack_signatures, unpack_signatures = sample_unpack_signatures,
      pack_segments = sample_pack_segments, unpack_segments = sample_unpack_segments,
      pack_partial_segments = sample_pack_segments,
      unpack_partial_segments = sample_unpack_segments,
      zlib_compress = sample_compress, zlib_decompress = sample_decompress,
      prunable_digest = (\<lambda>obj. replicate 32 0),
      pack_traces =
        (\<lambda>ts. concat (map (\<lambda>t. of_nat (trace_id t) #
                  (case trace_partial t of
                     None \<Rightarrow> [0]
                   | Some p \<Rightarrow> 1 # sample_pack_signatures (signatures p) @
                               sample_pack_segments (context_free_data p))) ts)),
      unpack_traces =
        (\<lambda>bs. Some (map (\<lambda>b. transaction_trace_v0 (unat b) []
                              (Some (partial_transaction_v0 [] [] ())) ()) bs)),
      pack_history_context_wrapper = (\<lambda>dbg v traces. map (\<lambda>a. of_nat (c_id (trace a))) traces)\<rparr>"

text \<open>
  The two facts on which the comment of \<^verbatim>\<open>trace_pruner::operator()\<close> rests the size of a
  pruned section: context-free data comes with signatures, and what \<^verbatim>\<open>prune_all\<close>
  returns (a digest) is not longer than what it replaces. In bytes: the digest takes at
  most four bytes more than the signatures, which the length of the segments makes up for.
\<close>

fun is_partial :: "('sig, 'dig, 'seg) prunable_data_type \<Rightarrow> bool" where
  "is_partial (partial sg cf) = True"
| "is_partial p = False"

fun signatures_of :: "('sig, 'dig, 'seg) prunable_data_type \<Rightarrow> 'sig list" where
  "signatures_of (none d) = []"
| "signatures_of (full_legacy sg cf) = sg"
| "signatures_of (partial sg cf) = sg"
| "signatures_of (full sg cf) = sg"

fun has_context_free :: "('sig, 'dig, 'seg) prunable_data_type \<Rightarrow> bool" where
  "has_context_free (none d) = False"
| "has_context_free (full_legacy sg cf) = (cf \<noteq> [])"
| "has_context_free (partial sg cf) = (cf \<noteq> [])"
| "has_context_free (full sg cf) = (cf \<noteq> [])"

definition context_free_needs_signatures :: "('sig, 'dig, 'seg) prunable_data_type \<Rightarrow> bool" where
  "context_free_needs_signatures obj = (has_context_free obj \<longrightarrow> signatures_of obj \<noteq> [])"

definition digest_fits ::
  "('sig, 'dig, 'seg, 'z) raw_codec_scheme \<Rightarrow> ('sig, 'dig, 'seg) prunable_data_type \<Rightarrow> bool" where
  "digest_fits c obj =
     (signatures_of obj \<noteq> [] \<longrightarrow>
        length (pack_none c (prunable_digest c obj)) \<le>
          length (pack_signatures c (signatures_of obj)) + 4)"

section \<open>Length-symmetric serialisers\<close>

text \<open>
  The specification assumes the generic serialiser to be deterministic and
  length-symmetric: what is written is exactly what is read. For the values of one entry
  this says: the deserialiser of the signatures, or of a digest, reads the value back from
  its bytes, whatever follows them, and consumes exactly these bytes; a compressed block is
  not empty, is shorter than \<open>2 ^ 32\<close> bytes (its length is stored in 32 bits), inflates to
  what was compressed, and that deserialises to the value.
\<close>

definition symmetric_signatures :: "('sig, 'dig, 'seg, 'z) raw_codec_scheme \<Rightarrow> 'sig list \<Rightarrow> bool" where
  "symmetric_signatures c sg =
     (\<forall>rest. unpack_signatures c (pack_signatures c sg @ rest) =
               Some (sg, length (pack_signatures c sg)))"

definition symmetric_none :: "('sig, 'dig, 'seg, 'z) raw_codec_scheme \<Rightarrow> 'dig \<Rightarrow> bool" where
  "symmetric_none c d =
     (\<forall>rest. unpack_none c (pack_none c d @ rest) = Some (d, length (pack_none c d)))"

definition symmetric_zlib ::
  "(bytes \<Rightarrow> bytes) \<Rightarrow> (bytes \<Rightarrow> bytes option) \<Rightarrow> (bytes \<Rightarrow> 'a option) \<Rightarrow> bytes \<Rightarrow> 'a \<Rightarrow> bool" where
  "symmetric_zlib compress decompress unpack_obj raw obj =
     (0 < length (compress raw) \<and> length (compress raw) < 2 ^ 32 \<and>
      decompress (compress raw) = Some raw \<and> unpack_obj raw = Some obj)"

fun symmetric ::
  "('sig, 'dig, 'seg, 'z) raw_codec_scheme \<Rightarrow> ('sig, 'dig, 'seg) prunable_data_type \<Rightarrow> bool" where
  "symmetric c (none d) = symmetric_none c d"
| "symmetric c (full_legacy sg cf) =
     (symmetric_signatures c sg \<and>
      (cf = [] \<or> symmetric_zlib (zlib_compress c) (zlib_decompress c) (unpack_segments c)
                    (pack_segments c cf) cf))"
| "symmetric c (partial sg cf) =
     (symmetric_signatures c sg \<and>
      (cf = [] \<or> symmetric_zlib (zlib_compress c) (zlib_decompress c) (unpack_partial_segments c)
                    (pack_partial_segments c cf) cf))"
| "symmetric c (full sg cf) =
     (symmetric_signatures c sg \<and>
      (cf = [] \<or> symmetric_zlib (zlib_compress c) (zlib_decompress c) (unpack_segments c)
                    (pack_segments c cf) cf))"

text \<open>
  The packed transactions for which \<^verbatim>\<open>for_each_packed_transaction\<close> calls its lambda, in
  the order of the calls; the prunable data of a trace, and the prunable sections of an
  entry.
\<close>

fun carried :: "('id, 'a) chain_trace \<Rightarrow> 'p option \<Rightarrow> 'p list" where
  "carried (chain_trace i rc failed x) ptrx =
     (case failed of Some ft \<Rightarrow> carried ft ptrx | None \<Rightarrow> []) @
     (case ptrx of Some pt \<Rightarrow> if failed = None then [pt] else [] | None \<Rightarrow> [])"

definition prunables_of ::
  "('id, 'sig, 'dig, 'seg, 'a) augmented_transaction_trace
     \<Rightarrow> ('sig, 'dig, 'seg) prunable_data_type list" where
  "prunables_of a = map get_prunable_data (carried (trace a) (packed_trx a))"

definition sections ::
  "('sig, 'dig, 'seg, 'z) raw_codec_scheme
     \<Rightarrow> ('id, 'sig, 'dig, 'seg, 'a) augmented_transaction_trace list \<Rightarrow> bytes" where
  "sections c traces = concat (map (\<lambda>a. concat (map (packed c) (prunables_of a))) traces)"

text \<open>
  Modelled from the spec: serialization.hpp, which writes the traces of the chain into the
  unprunable section, is missing. The specification has one prunable section for each
  trace that has no failed deferred trace and carries a packed transaction, after the
  sections of its failed deferred trace. \<open>same_shape t ct ptrx\<close> says that the stored trace
  \<open>t\<close> asks for sections where the chain's trace \<open>ct\<close> with the packed transaction
  \<open>ptrx\<close> emits them: it has a failed deferred trace where \<open>ct\<close> has one, and a partial
  transaction exactly where \<^verbatim>\<open>for_each_packed_transaction\<close> calls its lambda.
\<close>

fun same_shape ::
  "('id, 'sig, 'a) transaction_trace_v0 \<Rightarrow> ('id, 'a) chain_trace \<Rightarrow> 'p option \<Rightarrow> bool" where
  "same_shape (transaction_trace_v0 i failed part x) (chain_trace ci rc None cx) ptrx =
     (failed = [] \<and> (part = None) = (ptrx = None))"
| "same_shape (transaction_trace_v0 i failed part x) (chain_trace ci rc (Some ft) cx) ptrx =
     (part = None \<and> (case failed of [] \<Rightarrow> False | f # fs \<Rightarrow> same_shape f ft ptrx))"

text \<open>The ids of a stored trace and of the traces inside it.\<close>

fun trace_ids :: "('id, 'sig, 'a) transaction_trace_v0 \<Rightarrow> 'id list" where
  "trace_ids (transaction_trace_v0 i failed part x) = i # concat (map trace_ids failed)"


text \<open>
  The state of the pruner between two sections: the unread part of the buffer is
  \<open>rest\<close>, the read cursor stands before it, and the write cursor is not ahead of the
  read cursor. \<open>shrinks\<close> is the comparison on which the comment of
  \<^verbatim>\<open>trace_pruner::operator()\<close> relies, for a value that \<^verbatim>\<open>prune\<close> accepts.
\<close>

definition pruner_at :: "'id trace_pruner \<Rightarrow> bytes \<Rightarrow> bool" where
  "pruner_at pr rest =
     (\<exists>pre. buffer pr = pre @ rest \<and> read_strm pr = length pre \<and>
            last_read_pos pr = length pre \<and> write_strm pr \<le> length pre)"

definition shrinks ::
  "('sig, 'dig, 'seg, 'z) raw_codec_scheme \<Rightarrow> ('sig, 'dig, 'seg) prunable_data_type \<Rightarrow> bool" where
  "shrinks c p =
     (case prune c p of
        Inl e \<Rightarrow> False
      | Inr pruned \<Rightarrow> length (packed c pruned) \<le> length (packed c p))"

text \<open>
  The bytes of the unprunable section, and what makes an entry written by
  \<^verbatim>\<open>trace_converter::pack\<close> readable: the unprunable section is length-symmetric and
  holds the traces \<open>ts\<close>, \<open>ts\<close> has the shape of the traces written, and the prunable data
  is length-symmetric.
\<close>

definition unprunable ::
  "('sig, 'dig, 'seg, 'id, 'a, 'z) trace_codec_scheme \<Rightarrow> bool \<Rightarrow> 32 word
     \<Rightarrow> ('id, 'sig, 'dig, 'seg, 'a) augmented_transaction_trace list \<Rightarrow> bytes" where
  "unprunable c dbg version traces =
     zlib_packed (zlib_compress c) is_empty (pack_history_context_wrapper c dbg version) traces"

definition stored ::
  "('sig, 'dig, 'seg, 'id, 'a, 'z) trace_codec_scheme \<Rightarrow> bool \<Rightarrow> 32 word
     \<Rightarrow> ('id, 'sig, 'dig, 'seg, 'a) augmented_transaction_trace list
     \<Rightarrow> ('id, 'sig, 'a) transaction_trace_v0 list \<Rightarrow> bool" where
  "stored c dbg version traces ts =
     (symmetric_zlib (zlib_compress c) (zlib_decompress c) (unpack_traces c)
        (pack_history_context_wrapper c dbg version traces) ts \<and>
      list_all2 (\<lambda>t a. same_shape t (trace a) (packed_trx a)) ts traces \<and>
      (\<forall>a\<in>set traces. \<forall>p\<in>set (prunables_of a). symmetric c p))"

text \<open>
  The pruner of \<^verbatim>\<open>prune_traces\<close> after the first \<open>n\<close> traces of the entry: after the
  initial positioning when \<open>n = 0\<close>, at the end of the loop when \<open>n\<close> is the number of
  traces.
\<close>

definition pruner_after ::
  "('sig, 'dig, 'seg, 'id, 'a, 'z) trace_codec_scheme \<Rightarrow> bytes \<Rightarrow> 'id list \<Rightarrow> nat
     \<Rightarrow> exn option \<times> 'id trace_pruner" where
  "pruner_after c entry_payload tids n =
     (case zlib_unpack (zlib_decompress c) (unpack_traces c) entry_payload 0 [] of
        Inl e \<Rightarrow> (Some e, trace_pruner_init entry_payload 0 tids)
      | Inr (traces, rds) \<Rightarrow>
          prune_each c (take n traces) (trace_pruner_init entry_payload rds tids))"

section \<open>What decoding gives back\<close>

text \<open>
  The stored trace \<open>t\<close>, each partial transaction in it completed with the signatures and
  the context-free data of the packed transaction it was written from. A packed
  transaction in the state \<^verbatim>\<open>none\<close> leaves the partial transaction as the unprunable
  section has it.
\<close>

fun context_free_of :: "('sig, 'dig, 'seg) prunable_data_type \<Rightarrow> bytes list" where
  "context_free_of (full_legacy sg cf) = cf"
| "context_free_of (full sg cf) = cf"
| "context_free_of p = []"

fun with_prunable ::
  "('sig, 'a) partial_transaction_v0 \<Rightarrow> ('sig, 'dig, 'seg) prunable_data_type
     \<Rightarrow> ('sig, 'a) partial_transaction_v0" where
  "with_prunable ptrx (none d) = ptrx"
| "with_prunable (partial_transaction_v0 sg0 cf0 x) p =
     partial_transaction_v0 (signatures_of p) (context_free_of p) x"

fun completed ::
  "('id, 'sig, 'a) transaction_trace_v0 \<Rightarrow> ('id2, 'sig, 'dig, 'seg, 'b) packed_transaction option
     \<Rightarrow> ('id, 'sig, 'a) transaction_trace_v0" where
  "completed (transaction_trace_v0 i failed part x) ptrx =
     transaction_trace_v0 i
       (case failed of [] \<Rightarrow> [] | f # fs \<Rightarrow> completed f ptrx # fs)
       (case part of
          None \<Rightarrow> None
        | Some p \<Rightarrow>
            (case ptrx of
               None \<Rightarrow> Some p
             | Some pt \<Rightarrow> Some (with_prunable p (get_prunable_data pt))))
       x"

definition completed_traces ::
  "('id, 'sig, 'a) transaction_trace_v0 list
     \<Rightarrow> ('id2, 'sig, 'dig, 'seg, 'b) augmented_transaction_trace list
     \<Rightarrow> ('id, 'sig, 'a) transaction_trace_v0 list" where
  "completed_traces ts traces = map (\<lambda>(t, a). completed t (packed_trx a)) (zip ts traces)"

section \<open>Sample entries\<close>

text \<open>
  Blocks of two transactions (one for \<open>partial_traces\<close>), each trace with a receipt, a
  packed transaction and no failed deferred trace, and the traces as the sample
  deserialiser reads them from the unprunable section. A signature is 66 times the same
  byte. \<open>unsigned_traces\<close> has context-free data without a signature; the second
  transaction of \<open>kept_traces\<close> and the transaction of \<open>partial_traces\<close> are in the
  state \<^verbatim>\<open>partial\<close> with neither a signature nor a segment.
\<close>

definition signed_traces :: "(nat, bytes, bytes, bytes, unit) augmented_transaction_trace list" where
  "signed_traces =
     [\<lparr>trace = chain_trace 1 (Some ()) None (),
       packed_trx = Some (packed_transaction 1 (full [replicate 66 7] [[1, 2, 3]]) ())\<rparr>,
      \<lparr>trace = chain_trace 2 (Some ()) None (),
       packed_trx = Some (packed_transaction 2 (partial [replicate 66 9] []) ())\<rparr>]"

definition plain_traces :: "(nat, bytes, bytes, bytes, unit) augmented_transaction_trace list" where
  "plain_traces =
     [\<lparr>trace = chain_trace 1 (Some ()) None (),
       packed_trx = Some (packed_transaction 1 (full_legacy [replicate 66 7] [[1, 2, 3]]) ())\<rparr>,
      \<lparr>trace = chain_trace 2 (Some ()) None (),
       packed_trx = Some (packed_transaction 2 (none (replicate 32 5)) ())\<rparr>]"

definition unsigned_traces :: "(nat, bytes, bytes, bytes, unit) augmented_transaction_trace list" where
  "unsigned_traces =
     [\<lparr>trace = chain_trace 1 (Some ()) None (),
       packed_trx = Some (packed_transaction 1 (full [] [[]]) ())\<rparr>,
      \<lparr>trace = chain_trace 2 (Some ()) None (),
       packed_trx = Some (packed_transaction 2 (none (replicate 32 0)) ())\<rparr>]"

definition partial_traces :: "(nat, bytes, bytes, bytes, unit) augmented_transaction_trace list" where
  "partial_traces =
     [\<lparr>trace = chain_trace 1 (Some ()) None (),
       packed_trx = Some (packed_transaction 1 (partial [] []) ())\<rparr>]"


definition stored_traces :: "(nat, bytes, unit) transaction_trace_v0 list" where
  "stored_traces =
     [transaction_trace_v0 1 [] (Some (partial_transaction_v0 [] [] ())) (),
      transaction_trace_v0 2 [] (Some (partial_transaction_v0 [] [] ())) ()]"

section \<open>Streams and sections: basic facts\<close>

lemma pack_uint32_0: "pack_uint32 0 = [0, 0, 0, 0]"
  by (simp add: pack_uint32_def)

lemma uint32_roundtrip: "uint32_of (pack_uint32 w) = w"
  unfolding pack_uint32_def
  apply simp
  apply (rule bit_word_eqI)
  apply (auto simp add: bit_simps)
  subgoal for n by (cases "24 \<le> n") auto
  done

lemma length_pack_uint32: "length (pack_uint32 w) = 4"
  by (simp add: pack_uint32_def)

lemma length_overwrite:
  "length (overwrite buf at bs) = max (length buf) (at + length bs)"
  by (auto simp add: overwrite_def)

lemma overwrite_overwrite:
  "at \<le> length buf \<Longrightarrow>
   overwrite (overwrite buf at a) (at + length a) b = overwrite buf at (a @ b)"
  by (simp add: overwrite_def ac_simps)

lemma overwrite_prefix:
  "at \<le> length buf \<Longrightarrow> length a = length a' \<Longrightarrow>
   overwrite (overwrite buf at (a @ z)) at a' = overwrite buf at (a' @ z)"
  by (simp add: overwrite_def)

lemma stream_write_put: "room st (length bs) \<Longrightarrow> stream_write st bs = (None, put st bs)"
  by (simp add: stream_write_def put_def room_def)

lemma room_put: "room st (length a + n) \<Longrightarrow> room (put st a) n"
  by (auto simp add: room_def put_def length_overwrite)

lemma room_less: "room st n \<Longrightarrow> m \<le> n \<Longrightarrow> room st m"
  by (auto simp add: room_def)

lemma put_put: "room st (length a) \<Longrightarrow> put (put st a) b = put st (a @ b)"
  by (simp add: put_def room_def overwrite_overwrite add.assoc)

lemma and_then_None: "and_then (None, s) f = f s"
  by (simp add: and_then_def)

lemma zlib_pack_put:
  assumes "room st (length (zlib_packed compress emp raw_pack object))"
  shows "zlib_pack compress emp raw_pack st object =
           (None, put st (zlib_packed compress emp raw_pack object))"
proof (cases "emp object")
  case True
  with assms show ?thesis
    by (simp add: zlib_pack_def zlib_packed_def stream_write_put)
next
  case False
  define z where "z = compress (raw_pack object)"
  from assms False have r: "room st (4 + length z)"
    by (simp add: zlib_packed_def z_def length_pack_uint32)
  have r0: "room st (length (pack_uint32 0))"
    using r by (auto simp add: length_pack_uint32 intro: room_less)
  have w1: "stream_write st (pack_uint32 0) = (None, put st (pack_uint32 0))"
    using r0 by (rule stream_write_put)
  have r1: "room (put st (pack_uint32 0)) (length z)"
    using r by (intro room_put) (simp add: length_pack_uint32)
  have w2: "stream_write (put st (pack_uint32 0)) z = (None, put st (pack_uint32 0 @ z))"
    using r1 r0 by (simp add: stream_write_put put_put)
  have at: "pos st \<le> length (data st)" using r by (simp add: room_def)
  have cl: "length_writer_close (put st (pack_uint32 0 @ z)) (pos st + 4) =
              (None, put st (pack_uint32 (of_nat (length z)) @ z))"
    using at
    by (simp add: length_writer_close_def Let_def tellp_def seek_def put_def stream_write_def
        and_then_def length_pack_uint32 length_overwrite overwrite_prefix le_max_iff_disj)
  show ?thesis
    using False w1 w2 cl
    by (simp add: zlib_pack_def zlib_packed_def length_writer_open_def tellp_def z_def [symmetric]
        Let_def) (simp add: put_def length_pack_uint32)
qed

lemma pack_put:
  assumes "room st (length (packed c obj))"
  shows "pack c st obj = (None, put st (packed c obj))"
proof -
  have r1: "room st (length [which obj])"
    using assms by (auto simp add: packed_def intro: room_less)
  note w1 = stream_write_put [OF r1]
  show ?thesis
  proof (cases obj)
    case (none d)
    have "room (put st [which obj]) (length (pack_none c d))"
      using assms none by (intro room_put) (simp add: packed_def)
    then show ?thesis
      using none w1 r1
      by (simp add: pack_def and_then_None stream_write_put put_put packed_def)
  next
    case (full_legacy sg cf)
    let ?zp = "zlib_packed (zlib_compress c) is_empty_vector (pack_segments c) cf"
    have r2: "room (put st [which obj]) (length (pack_signatures c sg) + length ?zp)"
      using assms full_legacy by (intro room_put) (simp add: packed_def)
    then have r2': "room (put st [which obj]) (length (pack_signatures c sg))"
      by (rule room_less) simp
    have r3: "room (put (put st [which obj]) (pack_signatures c sg)) (length ?zp)"
      using r2 by (rule room_put)
    have r12: "room st (Suc (length (pack_signatures c sg)))"
      using assms full_legacy by (auto simp add: packed_def intro: room_less)
    show ?thesis
      using full_legacy w1 r1 r2' r3 r12
      by (simp add: pack_def and_then_None stream_write_put zlib_pack_put put_put packed_def)
  next
    case (partial sg cf)
    let ?zp = "zlib_packed (zlib_compress c) is_empty_vector (pack_partial_segments c) cf"
    have r2: "room (put st [which obj]) (length (pack_signatures c sg) + length ?zp)"
      using assms partial by (intro room_put) (simp add: packed_def)
    then have r2': "room (put st [which obj]) (length (pack_signatures c sg))"
      by (rule room_less) simp
    have r3: "room (put (put st [which obj]) (pack_signatures c sg)) (length ?zp)"
      using r2 by (rule room_put)
    have r12: "room st (Suc (length (pack_signatures c sg)))"
      using assms partial by (auto simp add: packed_def intro: room_less)
    show ?thesis
      using partial w1 r1 r2' r3 r12
      by (simp add: pack_def and_then_None stream_write_put zlib_pack_put put_put packed_def)
  next
    case (full sg cf)
    let ?zp = "zlib_packed (zlib_compress c) is_empty_vector (pack_segments c) cf"
    have r2: "room (put st [which obj]) (length (pack_signatures c sg) + length ?zp)"
      using assms full by (intro room_put) (simp add: packed_def)
    then have r2': "room (put st [which obj]) (length (pack_signatures c sg))"
      by (rule room_less) simp
    have r3: "room (put (put st [which obj]) (pack_signatures c sg)) (length ?zp)"
      using r2 by (rule room_put)
    have r12: "room st (Suc (length (pack_signatures c sg)))"
      using assms full by (auto simp add: packed_def intro: room_less)
    show ?thesis
      using full w1 r1 r2' r3 r12
      by (simp add: pack_def and_then_None stream_write_put zlib_pack_put put_put packed_def)
  qed
qed

section \<open>The bounded source\<close>



section \<open>The version gate\<close>

text \<open>
  C9. \<^verbatim>\<open>prune_traces\<close> with version 0 throws \<^verbatim>\<open>state_history_exception\<close> (the
  specification's UnsupportedOperation) whatever the entry and the ids are, and returns
  both as it got them: no byte of the entry decides anything.
\<close>

theorem prune_traces_version_0:
  "prune_traces c entry_payload 0 tids =
     (Inl (state_history_exception
             ''state history log version 0 does not support trace pruning''),
      entry_payload, tids)"
  by (simp add: prune_traces_def)

section \<open>The empty section\<close>

lemma read_zero_length:
  "unpack_uint32 (overwrite buf at [0, 0, 0, 0]) at = Inr (0, at + 4)"
  by (simp add: unpack_uint32_def ds_read_def overwrite_def)

text \<open>
  C7. For an empty vector, \<^verbatim>\<open>zlib_pack\<close> writes four zero bytes at the cursor and nothing
  else, whatever the compressor and the serialiser are (neither is asked); it needs a
  stream that has room for four bytes. On these bytes both \<^verbatim>\<open>zlib_unpack\<close> overloads move
  the cursor by exactly 4 and return the object they were given, whatever the inflating
  step is.
\<close>

theorem zlib_pack_unpack_empty:
  assumes "growable st \<or> pos st + 4 \<le> length (data st)"
  shows "zlib_pack compress is_empty_vector pack_obj st [] =
           (None, st\<lparr>data := overwrite (data st) (pos st) [0, 0, 0, 0], pos := pos st + 4\<rparr>) \<and>
         zlib_unpack_stream inflate_unpack (overwrite (data st) (pos st) [0, 0, 0, 0]) (pos st) obj =
           Inr (obj, pos st + 4) \<and>
         zlib_unpack decompress unpack_obj (overwrite (data st) (pos st) [0, 0, 0, 0]) (pos st) obj =
           Inr (obj, pos st + 4)"
  using assms
  by (auto simp add: zlib_pack_def is_empty_vector_def stream_write_def pack_uint32_0
      zlib_unpack_stream_def zlib_unpack_def read_zero_length)

theorem zlib_pack_unpack_empty_witness:
  "zlib_pack sample_compress is_empty_vector sample_pack_segments
       \<lparr>data = [7, 7], pos = 2, growable = True\<rparr> [] =
     (None, \<lparr>data = [7, 7, 0, 0, 0, 0], pos = 6, growable = True\<rparr>) \<and>
   zlib_unpack_stream (\<lambda>src. Inl library_exception) [7, 7, 0, 0, 0, 0] 2 [[5::byte]] =
     Inr ([[5]], 6) \<and>
   zlib_unpack sample_decompress sample_unpack_segments [7, 7, 0, 0, 0, 0] 2 [[5]] = Inr ([[5]], 6)"
  using zlib_pack_unpack_empty [where st = "\<lparr>data = [7, 7], pos = 2, growable = True\<rparr>"
      and compress = sample_compress and pack_obj = sample_pack_segments
      and inflate_unpack = "\<lambda>src. Inl library_exception" and obj = "[[5]]"
      and decompress = sample_decompress and unpack_obj = sample_unpack_segments]
  by (simp add: overwrite_def)

section \<open>The accumulator after prepare\_traces\<close>

text \<open>
  C4, as the code has it. When \<^verbatim>\<open>prepare_traces\<close> returns, the cache is empty and the
  on-block trace is absent. When it throws, because a transaction of the block has no
  cached trace with a receipt, the exception is \<^verbatim>\<open>state_history_exception\<close> and the
  accumulator is as it was: the two clearing statements stand after the loop.
\<close>

theorem prepare_traces_clears_on_success:
  "(case prepare_traces converter transactions of
      (Inl e, converter') \<Rightarrow>
         e = state_history_exception ''missing trace for transaction ${id}'' \<and>
         converter' = converter
    | (Inr traces, converter') \<Rightarrow>
         cached_traces converter' = Map.empty \<and> onblock_trace converter' = None)"
proof -
  have "\<And>e. find_traces cache rs acc = Inl e \<Longrightarrow>
          e = state_history_exception ''missing trace for transaction ${id}''"
    for cache :: "'a \<rightharpoonup> ('a, 'b, 'c, 'd, 'e) augmented_transaction_trace" and rs acc
    by (induction rs arbitrary: acc) (auto simp add: Let_def split: option.splits if_splits)
  then show ?thesis
    by (auto simp add: prepare_traces_def split: sum.splits)
qed

text \<open>
  An accumulator that holds the trace of transaction 1: the block \<open>[1]\<close> is assembled and
  the accumulator is cleared.
\<close>

theorem prepare_traces_clears_on_success_witness:
  "prepare_traces
     \<lparr>cached_traces = [1 \<mapsto> \<lparr>trace = chain_trace (1::nat) (Some ()) None (), packed_trx = None\<rparr>],
      onblock_trace = None\<rparr> [Inl 1] =
   (Inr [\<lparr>trace = chain_trace 1 (Some ()) None (),
           packed_trx = (None :: (nat, bytes, bytes, bytes, unit) packed_transaction option)\<rparr>],
    \<lparr>cached_traces = Map.empty, onblock_trace = None\<rparr>)"
  using prepare_traces_clears_on_success
    [of "\<lparr>cached_traces = [1 \<mapsto> \<lparr>trace = chain_trace (1::nat) (Some ()) None (),
                                   packed_trx = (None :: (nat, bytes, bytes, bytes, unit)
                                                   packed_transaction option)\<rparr>],
          onblock_trace = None\<rparr>" "[Inl 1]"]
  by (simp add: prepare_traces_def)

text \<open>
  C4 as the specification states it fails: the same accumulator, asked for transaction 2,
  throws and still holds the trace of transaction 1.
\<close>

theorem prepare_traces_failure_keeps_cache:
  "prepare_traces
     \<lparr>cached_traces = [1 \<mapsto> \<lparr>trace = chain_trace (1::nat) (Some ()) None (),
                             packed_trx = (None :: (nat, bytes, bytes, bytes, unit)
                                             packed_transaction option)\<rparr>],
      onblock_trace = None\<rparr> [Inl 2] =
   (Inl (state_history_exception ''missing trace for transaction ${id}''),
    \<lparr>cached_traces = [1 \<mapsto> \<lparr>trace = chain_trace 1 (Some ()) None (), packed_trx = None\<rparr>],
     onblock_trace = None\<rparr>) \<and>
   cached_traces
     (snd (prepare_traces
        \<lparr>cached_traces = [1 \<mapsto> \<lparr>trace = chain_trace (1::nat) (Some ()) None (),
                                packed_trx = (None :: (nat, bytes, bytes, bytes, unit)
                                                packed_transaction option)\<rparr>],
         onblock_trace = None\<rparr> [Inl 2])) 1 \<noteq> None"
  by (simp add: prepare_traces_def)

section \<open>The size of a pruned section\<close>

lemma encoding_packed: "encoding c obj = packed c obj"
proof -
  have "room \<lparr>data = [], pos = 0, growable = True\<rparr> (length (packed c obj))"
    by (simp add: room_def)
  then show ?thesis
    by (simp add: encoding_def pack_put put_def overwrite_def)
qed

lemma length_zlib_packed: "4 \<le> length (zlib_packed compress emp pack_obj obj)"
  by (simp add: zlib_packed_def length_pack_uint32)

lemma prune_cases:
  "prune c obj = Inl unsupported_operation \<and> is_partial obj \<and>
     (signatures_of obj \<noteq> [] \<or> has_context_free obj) \<or>
   prune c obj = Inr obj \<and> signatures_of obj = [] \<and> \<not> has_context_free obj \<or>
   prune c obj = Inr (none (prunable_digest c obj)) \<and> \<not> is_partial obj \<and>
     (signatures_of obj \<noteq> [] \<or> has_context_free obj)"
  by (cases obj) auto

lemma packed_prune_le:
  assumes "context_free_needs_signatures obj" and "digest_fits c obj"
      and "prune c obj = Inr pruned"
  shows "length (packed c pruned) \<le> length (packed c obj)"
proof (cases "pruned = obj")
  case True
  then show ?thesis by simp
next
  case False
  with assms(3) prune_cases [of c obj]
  have pr: "pruned = none (prunable_digest c obj)"
      and "signatures_of obj \<noteq> [] \<or> has_context_free obj"
    by auto
  then have ne: "signatures_of obj \<noteq> []"
    using assms(1) by (auto simp add: context_free_needs_signatures_def)
  have "length (pack_signatures c (signatures_of obj)) + 4 \<le> length (packed c obj) - 1"
    using ne by (cases obj) (auto simp add: packed_def length_zlib_packed)
  moreover have "length (packed c obj) \<ge> 1" by (simp add: packed_def)
  ultimately show ?thesis
    using assms(2) ne by (simp add: pr packed_def digest_fits_def)
qed

text \<open>
  C2, as the code has it. Let \<open>obj\<close> have signatures whenever it has context-free
  segments, and a digest that takes at most four bytes more than its signatures. When
  \<^verbatim>\<open>prune\<close> returns, the section of what it returns has at most as many bytes as the
  section of \<open>obj\<close>. It returns on every value but one in the state \<^verbatim>\<open>partial\<close> that has
  signatures, on which \<^verbatim>\<open>prune_all\<close> throws.
\<close>

theorem prune_not_larger:
  assumes "context_free_needs_signatures obj" and "digest_fits c obj"
  shows "case prune c obj of
           Inr pruned \<Rightarrow> length (encoding c pruned) \<le> length (encoding c obj)
         | Inl e \<Rightarrow> e = unsupported_operation \<and> is_partial obj \<and> signatures_of obj \<noteq> []"
proof (cases "prune c obj")
  case (Inr pruned)
  then show ?thesis
    using packed_prune_le [OF assms Inr] by (simp add: encoding_packed)
next
  case (Inl e)
  with prune_cases [of c obj] assms(1) show ?thesis
    by (auto simp add: context_free_needs_signatures_def)
qed

text \<open>One signature of 66 bytes and one segment: 33 bytes replace 86.\<close>

theorem prune_not_larger_witness:
  "context_free_needs_signatures
     (full [replicate 66 7] [[1, 2, 3]] :: (bytes, bytes, bytes) prunable_data_type) \<and>
   digest_fits sample_codec (full [replicate 66 7] [[1, 2, 3]]) \<and>
   prune sample_codec (full [replicate 66 7] [[1, 2, 3]]) = Inr (none (replicate 32 0)) \<and>
   length (encoding sample_codec (none (replicate 32 0))) \<le>
     length (encoding sample_codec (full [replicate 66 7] [[1, 2, 3]]))"
proof -
  have a: "context_free_needs_signatures
             (full [replicate 66 7] [[1, 2, 3]] :: (bytes, bytes, bytes) prunable_data_type)"
    by (simp add: context_free_needs_signatures_def)
  have b: "digest_fits sample_codec (full [replicate 66 7] [[1, 2, 3]])"
    by (simp add: digest_fits_def sample_codec_def sample_pack_signatures_def)
  have p: "prune sample_codec (full [replicate 66 7] [[1, 2, 3]]) = Inr (none (replicate 32 0))"
    by (simp add: sample_codec_def)
  show ?thesis
    using a b p prune_not_larger [OF a b] by simp
qed

text \<open>
  C2 as the specification states it, for every value, fails: a value with a segment and
  no signature takes 16 bytes (tag, empty signature vector, length, ten compressed
  bytes), and \<^verbatim>\<open>prune\<close> replaces it by \<^verbatim>\<open>none\<close> with its digest, 33 bytes.
\<close>

theorem prune_larger_without_signatures:
  "prune sample_codec (full [] [[]]) = Inr (none (replicate 32 0)) \<and>
   length (encoding sample_codec (none (replicate 32 0))) = 33 \<and>
   length (encoding sample_codec (full [] [[]])) = 16"
  by (simp add: encoding_packed packed_def sample_codec_def zlib_packed_def
      is_empty_vector_def sample_pack_signatures_def sample_pack_segments_def
      sample_compress_def length_pack_uint32)

section \<open>Reading back what was written\<close>

lemma ds_read_at:
  "ds_read (pre @ bs @ rest) (length pre) (length bs) = Inr (bs, length pre + length bs)"
  by (simp add: ds_read_def)

lemma unpack_uint32_at:
  "unpack_uint32 (pre @ pack_uint32 w @ rest) (length pre) = Inr (w, length pre + 4)"
  using ds_read_at [of pre "pack_uint32 w" rest]
  by (simp add: unpack_uint32_def length_pack_uint32 uint32_roundtrip)

lemma raw_unpack_at:
  assumes "parse (bs @ rest) = Some (v, length bs)"
  shows "raw_unpack parse (pre @ bs @ rest) (length pre) = Inr (v, length pre + length bs)"
  using assms by (simp add: raw_unpack_def)

lemma unat_of_nat_32: "n < 2 ^ 32 \<Longrightarrow> unat (of_nat n :: 32 word) = n"
  by (simp add: unat_of_nat)

lemma zlib_unpack_packed:
  assumes "emp x \<or> symmetric_zlib compress decompress unpack_obj (pack_obj x) obj"
      and "emp x \<Longrightarrow> obj = dflt"
  shows "zlib_unpack decompress unpack_obj
           (pre @ zlib_packed compress emp pack_obj x @ rest) (length pre) dflt =
         Inr (obj, length pre + length (zlib_packed compress emp pack_obj x))"
proof (cases "emp x")
  case True
  with assms(2) show ?thesis
    using unpack_uint32_at [of pre 0 rest]
    by (simp add: zlib_unpack_def zlib_packed_def length_pack_uint32)
next
  case False
  define z where "z = compress (pack_obj x)"
  from False assms(1) have s: "0 < length z" "length z < 2 ^ 32"
      "decompress z = Some (pack_obj x)" "unpack_obj (pack_obj x) = Some obj"
    by (simp_all add: symmetric_zlib_def z_def)
  have u: "unat (of_nat (length z) :: 32 word) = length z"
    using s(2) by (rule unat_of_nat_32)
  have nz: "(of_nat (length z) :: 32 word) \<noteq> 0"
    using u s(1) by (metis less_numeral_extra(3) unat_0)
  have rd: "unpack_uint32 (pre @ pack_uint32 (of_nat (length z)) @ z @ rest) (length pre) =
              Inr (of_nat (length z), length pre + 4)"
    by (rule unpack_uint32_at)
  have dr: "drop (length pre + 4) (pre @ pack_uint32 (of_nat (length z)) @ z @ rest) = z @ rest"
    by (simp add: length_pack_uint32)
  show ?thesis
    using False rd nz u s dr
    by (simp add: zlib_unpack_def zlib_packed_def z_def [symmetric] remaining_of_def
        length_pack_uint32)
qed

lemma unpack_with_segments_at:
  assumes "symmetric_signatures c sg"
      and "cf = [] \<or> symmetric_zlib (zlib_compress c) (zlib_decompress c) unpack_obj (pack_obj cf) cf"
  shows "unpack_with_segments c unpack_obj
           (pre @ pack_signatures c sg @
              zlib_packed (zlib_compress c) is_empty_vector pack_obj cf @ rest) (length pre) =
         Inr ((sg, cf), length pre + length (pack_signatures c sg) +
                length (zlib_packed (zlib_compress c) is_empty_vector pack_obj cf))"
proof -
  let ?zp = "zlib_packed (zlib_compress c) is_empty_vector pack_obj cf"
  have 1: "raw_unpack (unpack_signatures c) (pre @ pack_signatures c sg @ ?zp @ rest) (length pre) =
             Inr (sg, length pre + length (pack_signatures c sg))"
    using assms(1) by (intro raw_unpack_at) (simp add: symmetric_signatures_def)
  have 2: "zlib_unpack (zlib_decompress c) unpack_obj
             ((pre @ pack_signatures c sg) @ ?zp @ rest) (length (pre @ pack_signatures c sg)) [] =
           Inr (cf, length (pre @ pack_signatures c sg) + length ?zp)"
    using assms(2) by (intro zlib_unpack_packed) (simp_all add: is_empty_vector_def)
  show ?thesis
    using 1 2 by (simp add: unpack_with_segments_def)
qed

lemma unpack_packed:
  assumes "symmetric c obj"
  shows "unpack c (pre @ packed c obj @ rest) (length pre) =
           Inr (obj, length pre + length (packed c obj))"
proof -
  have tag: "ds_read (pre @ [which obj] @ more) (length pre) 1 = Inr ([which obj], length pre + 1)"
    for more
    using ds_read_at [of pre "[which obj]" more] by simp
  show ?thesis
  proof (cases obj)
    case (none d)
    have "raw_unpack (unpack_none c) ((pre @ [1]) @ pack_none c d @ rest) (length (pre @ [1])) =
            Inr (d, length (pre @ [1]) + length (pack_none c d))"
      using assms none by (intro raw_unpack_at) (simp add: symmetric_none_def)
    then show ?thesis
      using none tag [of "pack_none c d @ rest"]
      by (simp add: unpack_def packed_def)
  next
    case (full_legacy sg cf)
    have "unpack_with_segments c (unpack_segments c)
            ((pre @ [0]) @ pack_signatures c sg @
               zlib_packed (zlib_compress c) is_empty_vector (pack_segments c) cf @ rest)
            (length (pre @ [0])) =
          Inr ((sg, cf), length (pre @ [0]) + length (pack_signatures c sg) +
                 length (zlib_packed (zlib_compress c) is_empty_vector (pack_segments c) cf))"
      using assms full_legacy by (intro unpack_with_segments_at) simp_all
    then show ?thesis
      using full_legacy
        tag [of "pack_signatures c sg @
                   zlib_packed (zlib_compress c) is_empty_vector (pack_segments c) cf @ rest"]
      by (simp add: unpack_def packed_def)
  next
    case (partial sg cf)
    have "unpack_with_segments c (unpack_partial_segments c)
            ((pre @ [2]) @ pack_signatures c sg @
               zlib_packed (zlib_compress c) is_empty_vector (pack_partial_segments c) cf @ rest)
            (length (pre @ [2])) =
          Inr ((sg, cf), length (pre @ [2]) + length (pack_signatures c sg) +
                 length (zlib_packed (zlib_compress c) is_empty_vector
                           (pack_partial_segments c) cf))"
      using assms partial by (intro unpack_with_segments_at) simp_all
    then show ?thesis
      using partial
        tag [of "pack_signatures c sg @
                   zlib_packed (zlib_compress c) is_empty_vector (pack_partial_segments c) cf @
                   rest"]
      by (simp add: unpack_def packed_def)
  next
    case (full sg cf)
    have "unpack_with_segments c (unpack_segments c)
            ((pre @ [3]) @ pack_signatures c sg @
               zlib_packed (zlib_compress c) is_empty_vector (pack_segments c) cf @ rest)
            (length (pre @ [3])) =
          Inr ((sg, cf), length (pre @ [3]) + length (pack_signatures c sg) +
                 length (zlib_packed (zlib_compress c) is_empty_vector (pack_segments c) cf))"
      using assms full by (intro unpack_with_segments_at) simp_all
    then show ?thesis
      using full
        tag [of "pack_signatures c sg @
                   zlib_packed (zlib_compress c) is_empty_vector (pack_segments c) cf @ rest"]
      by (simp add: unpack_def packed_def)
  qed
qed

section \<open>The pruner on the sections of an entry\<close>

lemma overwrite_within:
  "at + length bs \<le> length a \<Longrightarrow> overwrite (a @ b) at bs = overwrite a at bs @ b"
  by (simp add: overwrite_def)

lemma length_overwrite_within:
  "at + length bs \<le> length a \<Longrightarrow> length (overwrite a at bs) = length a"
  by (simp add: length_overwrite)

lemma trace_pruner_call_step:
  assumes at: "pruner_at pr (sec @ rest)"
      and le: "i \<in> set (ids pr) \<Longrightarrow> prune c p = Inr q \<and> length (packed c q) \<le> length sec"
  shows "\<exists>pr'. trace_pruner_call c i p (pr\<lparr>read_strm := read_strm pr + length sec\<rparr>) = (None, pr') \<and>
               pruner_at pr' rest \<and> length (buffer pr') = length (buffer pr)"
proof -
  from at obtain pre where pre: "buffer pr = pre @ sec @ rest" "read_strm pr = length pre"
      "last_read_pos pr = length pre" "write_strm pr \<le> length pre"
    by (auto simp add: pruner_at_def)
  have lb: "length (buffer pr) = length pre + length sec + length rest"
    using pre(1) by simp
  let ?pr = "pr\<lparr>read_strm := read_strm pr + length sec\<rparr>"
  show ?thesis
  proof (cases "i \<in> set (ids pr)")
    case True
    let ?bs = "packed c q"
    have q: "prune c p = Inr q"
      using le [OF True] by simp
    have fit: "write_strm pr + length ?bs \<le> length (pre @ sec)"
      using pre(4) le [OF True] by simp
    have rm: "room \<lparr>data = buffer pr, pos = write_strm pr, growable = False\<rparr> (length ?bs)"
      using fit pre(1) by (simp add: room_def)
    have ow: "overwrite (buffer pr) (write_strm pr) ?bs =
                overwrite (pre @ sec) (write_strm pr) ?bs @ rest"
      using overwrite_within [OF fit, of rest] pre(1) by simp
    have len: "length (overwrite (pre @ sec) (write_strm pr) ?bs) = length pre + length sec"
      using length_overwrite_within [OF fit] by simp
    have pk: "pack c \<lparr>data = buffer pr, pos = write_strm pr, growable = False\<rparr> q =
                (None, \<lparr>data = overwrite (pre @ sec) (write_strm pr) ?bs @ rest,
                        pos = write_strm pr + length ?bs, growable = False\<rparr>)"
      by (simp add: pack_put [OF rm] put_def ow)
    show ?thesis
      using True pre(2-4) fit len lb
      by (auto simp add: trace_pruner_call_def Let_def q pk pruner_at_def
          intro!: exI [of _ "overwrite (pre @ sec) (write_strm pr) ?bs"])
  next
    case False
    show ?thesis
    proof (cases "change_position pr = 0")
      case True
      with False pre show ?thesis
        by (auto simp add: trace_pruner_call_def pruner_at_def intro!: exI [of _ "pre @ sec"])
    next
      case nz: False
      have fit: "write_strm pr + length sec \<le> length (pre @ sec)"
        using pre(4) by simp
      have src: "take (read_strm ?pr - last_read_pos ?pr) (drop (last_read_pos ?pr) (buffer ?pr)) = sec"
        using pre by simp
      have ow: "overwrite (buffer pr) (write_strm pr) sec =
                  overwrite (pre @ sec) (write_strm pr) sec @ rest"
        using overwrite_within [OF fit, of rest] pre(1) by simp
      have len: "length (overwrite (pre @ sec) (write_strm pr) sec) = length pre + length sec"
        using length_overwrite_within [OF fit] by simp
      have w: "stream_write \<lparr>data = buffer pr, pos = write_strm pr, growable = False\<rparr> sec =
                 (None, \<lparr>data = overwrite (pre @ sec) (write_strm pr) sec @ rest,
                         pos = write_strm pr + length sec, growable = False\<rparr>)"
        using fit pre(1) ow by (simp add: stream_write_def)
      show ?thesis
        using False nz pre(2-4) src w len lb
        by (auto simp add: trace_pruner_call_def pruner_at_def
            intro!: exI [of _ "overwrite (pre @ sec) (write_strm pr) sec"])
    qed
  qed
qed

lemma trace_pruner_call_ids:
  "trace_pruner_call c i p pr = (r, pr') \<Longrightarrow> set (ids pr') \<subseteq> set (ids pr)"
  by (auto simp add: trace_pruner_call_def Let_def
      split: prod.splits option.splits sum.splits if_splits
      dest: set_remove1_subset [THEN subsetD])

lemma visit_prune_encoded:
  assumes "same_shape t ct ptrx"
      and "\<forall>pt\<in>set (carried ct ptrx). symmetric c (get_prunable_data pt)"
      and "set (trace_ids t) \<inter> set (ids pr) = {} \<or>
           (\<forall>pt\<in>set (carried ct ptrx). shrinks c (get_prunable_data pt))"
      and "pruner_at pr (concat (map (\<lambda>pt. packed c (get_prunable_data pt)) (carried ct ptrx)) @ rest)"
  shows "\<exists>pr'. visit_deserialized_trace_prune c t pr = (None, pr') \<and> pruner_at pr' rest \<and>
               set (ids pr') \<subseteq> set (ids pr) \<and> length (buffer pr') = length (buffer pr)"
  using assms
proof (induction t ct ptrx arbitrary: pr rule: same_shape.induct)
  case (1 i failed part x ci rc cx ptrx)
  show ?case
  proof (cases ptrx)
    case None
    with "1.prems" show ?thesis
      by (simp add: and_then_None)
  next
    case (Some pt)
    with "1.prems"(1) obtain p0 where part: "part = Some p0" and failed: "failed = []"
      by auto
    let ?p = "get_prunable_data pt"
    let ?sec = "packed c ?p"
    from "1.prems"(4) Some have at: "pruner_at pr (?sec @ rest)"
      by simp
    then obtain pre where pre: "buffer pr = pre @ ?sec @ rest" "read_strm pr = length pre"
      by (auto simp add: pruner_at_def)
    have sym: "symmetric c ?p"
      using "1.prems"(2) Some by simp
    have un: "unpack c (buffer pr) (read_strm pr) = Inr (?p, read_strm pr + length ?sec)"
      using unpack_packed [OF sym, of pre rest] pre by simp
    have "\<exists>q. i \<in> set (ids pr) \<longrightarrow> prune c ?p = Inr q \<and> length (packed c q) \<le> length ?sec"
      using "1.prems"(3) Some by (auto simp add: shrinks_def split: sum.splits)
    then obtain q where
      le: "i \<in> set (ids pr) \<Longrightarrow> prune c ?p = Inr q \<and> length (packed c q) \<le> length ?sec"
      by blast
    from trace_pruner_call_step [OF at le, of i]
    obtain pr' where st: "trace_pruner_call c i ?p (pr\<lparr>read_strm := read_strm pr + length ?sec\<rparr>) =
                             (None, pr')" "pruner_at pr' rest" "length (buffer pr') = length (buffer pr)"
      by blast
    from trace_pruner_call_ids [OF st(1)] have "set (ids pr') \<subseteq> set (ids pr)" by simp
    with st show ?thesis
      using part failed un by (simp add: and_then_None)
  qed
next
  case (2 i failed part x ci rc ft cx ptrx)
  from "2.prems"(1) obtain f fs where f: "failed = f # fs" "part = None" "same_shape f ft ptrx"
    by (auto split: list.splits)
  have ids: "set (trace_ids f) \<subseteq> set (trace_ids (transaction_trace_v0 i failed part x))"
    using f(1) by auto
  have "\<exists>pr'. visit_deserialized_trace_prune c f pr = (None, pr') \<and> pruner_at pr' rest \<and>
          set (ids pr') \<subseteq> set (ids pr) \<and> length (buffer pr') = length (buffer pr)"
  proof (rule "2.IH" [OF f(1) f(3)])
    show "\<forall>pt\<in>set (carried ft ptrx). symmetric c (get_prunable_data pt)"
      using "2.prems"(2) by (cases ptrx) auto
    show "set (trace_ids f) \<inter> set (ids pr) = {} \<or>
          (\<forall>pt\<in>set (carried ft ptrx). shrinks c (get_prunable_data pt))"
      using "2.prems"(3) ids by (cases ptrx) auto
    show "pruner_at pr (concat (map (\<lambda>pt. packed c (get_prunable_data pt)) (carried ft ptrx)) @ rest)"
      using "2.prems"(4) by (cases ptrx) auto
  qed
  then show ?case
    using f by (auto simp add: and_then_None)
qed

lemma carried_at_most_one: "length (carried ct ptrx) \<le> 1"
  by (induction ct ptrx rule: carried.induct) (auto split: option.splits)

lemma sections_Cons:
  "sections c (a # traces) = concat (map (packed c) (prunables_of a)) @ sections c traces"
  by (simp add: sections_def)

lemma sections_append: "sections c (xs @ ys) = sections c xs @ sections c ys"
  by (simp add: sections_def)

lemma prune_each_encoded:
  assumes "list_all2 (\<lambda>t a. same_shape t (trace a) (packed_trx a)) ts traces"
      and "\<forall>a\<in>set traces. \<forall>p\<in>set (prunables_of a). symmetric c p"
      and "list_all2 (\<lambda>t a. set (trace_ids t) \<inter> set tids = {} \<or>
                              (\<forall>p\<in>set (prunables_of a). shrinks c p)) ts traces"
      and "set (ids pr) \<subseteq> set tids"
      and "pruner_at pr (sections c traces @ rest)"
  shows "\<exists>pr'. prune_each c ts pr = (None, pr') \<and> pruner_at pr' rest \<and>
               set (ids pr') \<subseteq> set tids \<and> length (buffer pr') = length (buffer pr)"
  using assms
proof (induction ts traces arbitrary: pr rule: list_all2_induct)
  case Nil
  then show ?case by (simp add: sections_def)
next
  case (Cons t ts a traces)
  have "\<exists>pr1. visit_deserialized_trace_prune c t pr = (None, pr1) \<and>
          pruner_at pr1 (sections c traces @ rest) \<and> set (ids pr1) \<subseteq> set (ids pr) \<and>
          length (buffer pr1) = length (buffer pr)"
  proof (rule visit_prune_encoded [OF Cons.hyps(1)])
    show "\<forall>pt\<in>set (carried (trace a) (packed_trx a)). symmetric c (get_prunable_data pt)"
      using Cons.prems(1) by (simp add: prunables_of_def)
    show "set (trace_ids t) \<inter> set (ids pr) = {} \<or>
          (\<forall>pt\<in>set (carried (trace a) (packed_trx a)). shrinks c (get_prunable_data pt))"
      using Cons.prems(2,3) by (auto simp add: prunables_of_def)
    show "pruner_at pr (concat (map (\<lambda>pt. packed c (get_prunable_data pt))
                                  (carried (trace a) (packed_trx a))) @ sections c traces @ rest)"
      using Cons.prems(4) by (simp add: sections_Cons prunables_of_def comp_def)
  qed
  then obtain pr1 where 1: "visit_deserialized_trace_prune c t pr = (None, pr1)"
      "pruner_at pr1 (sections c traces @ rest)" "set (ids pr1) \<subseteq> set (ids pr)"
      "length (buffer pr1) = length (buffer pr)"
    by blast
  have "\<exists>pr'. prune_each c ts pr1 = (None, pr') \<and> pruner_at pr' rest \<and> set (ids pr') \<subseteq> set tids \<and>
          length (buffer pr') = length (buffer pr1)"
    using Cons.prems 1 by (intro Cons.IH) auto
  then show ?case
    using 1 by (simp add: and_then_None)
qed










section \<open>The bytes of an entry\<close>

lemma room_growable: "growable st \<Longrightarrow> pos st \<le> length (data st) \<Longrightarrow> room st n"
  by (simp add: room_def)

lemma put_growable:
  "growable st \<Longrightarrow> pos st \<le> length (data st) \<Longrightarrow>
   growable (put st bs) \<and> pos (put st bs) \<le> length (data (put st bs))"
  by (simp add: put_def length_overwrite)

lemma put_Nil: "pos st \<le> length (data st) \<Longrightarrow> put st [] = st"
  by (simp add: put_def overwrite_def)

lemma for_each_packed_transaction_put:
  assumes "\<And>pt f. growable f \<Longrightarrow> pos f \<le> length (data f) \<Longrightarrow> lam pt f = (None, put f (enc pt))"
      and "growable st" and "pos st \<le> length (data st)"
  shows "for_each_packed_transaction ct ptrx lam st =
           (None, put st (concat (map enc (carried ct ptrx))))"
  using assms
proof (induction ct ptrx lam st rule: for_each_packed_transaction.induct)
  case (1 i rc failed x ptrx lam st)
  show ?case
  proof (cases failed)
    case None
    then show ?thesis
      using "1.prems"
      by (cases ptrx) (simp_all add: and_then_None put_Nil)
  next
    case (Some ft)
    then show ?thesis
      using "1.IH" [OF Some "1.prems"] "1.prems"
      by (cases ptrx) (simp_all add: and_then_None)
  qed
qed

lemma for_each_packed_transactions_put:
  assumes "growable st" and "pos st \<le> length (data st)"
  shows "for_each_packed_transactions traces (\<lambda>pt f. pack c f (get_prunable_data pt)) st =
           (None, put st (sections c traces))"
  using assms
proof (induction traces arbitrary: st)
  case Nil
  then show ?case by (simp add: sections_def put_Nil)
next
  case (Cons a traces)
  let ?s = "concat (map (\<lambda>pt. packed c (get_prunable_data pt)) (carried (trace a) (packed_trx a)))"
  have one: "for_each_packed_transaction (trace a) (packed_trx a)
               (\<lambda>pt f. pack c f (get_prunable_data pt)) st = (None, put st ?s)"
    using Cons.prems
    by (intro for_each_packed_transaction_put) (simp_all add: pack_put room_growable)
  have g: "growable (put st ?s) \<and> pos (put st ?s) \<le> length (data (put st ?s))"
    using Cons.prems by (rule put_growable)
  have "for_each_packed_transactions traces (\<lambda>pt f. pack c f (get_prunable_data pt)) (put st ?s) =
          (None, put (put st ?s) (sections c traces))"
    using g by (intro Cons.IH) simp_all
  then show ?case
    using Cons.prems one
    by (simp add: and_then_None put_put room_growable sections_Cons prunables_of_def comp_def)
qed

lemma pack_entry_v1:
  assumes "version \<noteq> 0"
  shows "pack_entry c \<lparr>data = [], pos = 0, growable = True\<rparr> dbg traces version =
           (None, \<lparr>data = pack_uint32 (of_nat (length (unprunable c dbg version traces @
                                                       sections c traces))) @
                          unprunable c dbg version traces @ sections c traces,
                   pos = 4 + length (unprunable c dbg version traces @ sections c traces),
                   growable = True\<rparr>)"
proof -
  let ?f0 = "\<lparr>data = [], pos = 0, growable = True\<rparr>"
  let ?u = "unprunable c dbg version traces"
  let ?s = "sections c traces"
  let ?f1 = "\<lparr>data = pack_uint32 0, pos = 4, growable = True\<rparr>"
  let ?f2 = "\<lparr>data = pack_uint32 0 @ ?u, pos = 4 + length ?u, growable = True\<rparr>"
  let ?f3 = "\<lparr>data = pack_uint32 0 @ ?u @ ?s, pos = 4 + length (?u @ ?s), growable = True\<rparr>"
  have o: "length_writer_open ?f0 = (None, ?f1)"
    by (simp add: length_writer_open_def stream_write_def overwrite_def length_pack_uint32)
  have u: "pack_unprunable c ?f1 dbg version traces = (None, ?f2)"
    by (simp add: pack_unprunable_def unprunable_def zlib_pack_put room_def put_def
        overwrite_def length_pack_uint32)
  have e: "for_each_packed_transactions traces (\<lambda>pt f. pack c f (get_prunable_data pt)) ?f2 =
             (None, ?f3)"
    by (simp add: for_each_packed_transactions_put put_def overwrite_def length_pack_uint32)
  have cl: "length_writer_close ?f3 4 =
            (None, \<lparr>data = pack_uint32 (of_nat (length (?u @ ?s))) @ ?u @ ?s,
                    pos = 4 + length (?u @ ?s), growable = True\<rparr>)"
    by (simp add: length_writer_close_def Let_def tellp_def seek_def stream_write_def
        and_then_def overwrite_def length_pack_uint32)
  have "pack_entry c ?f0 dbg traces version =
          (case length_writer_close ?f3 4 of (Some e, f3) \<Rightarrow> (Some e, f3) | (None, f3) \<Rightarrow> (None, f3))"
    unfolding pack_entry_def o using assms
    by (simp add: Let_def tellp_def u e and_then_None)
  then show ?thesis
    unfolding cl by simp
qed

lemma encode_v1:
  "version \<noteq> 0 \<Longrightarrow>
   encode c dbg version traces = unprunable c dbg version traces @ sections c traces"
  by (simp add: encode_def pack_entry_v1 length_pack_uint32)

lemma encode_v0:
  "encode c dbg 0 traces = zlib_compress c (pack_history_context_wrapper c dbg 0 traces)"
proof -
  let ?f0 = "\<lparr>data = [], pos = 0, growable = True\<rparr>"
  have "pack_unprunable c ?f0 dbg 0 traces = (None, put ?f0 (unprunable c dbg 0 traces))"
    by (simp add: pack_unprunable_def unprunable_def zlib_pack_put room_def)
  then show ?thesis
    by (simp add: encode_def pack_entry_def put_def overwrite_def unprunable_def zlib_packed_def
        is_empty_def length_pack_uint32)
qed

lemma zlib_unpack_entry:
  assumes "version \<noteq> 0" and "stored c dbg version traces ts"
  shows "zlib_unpack (zlib_decompress c) (unpack_traces c) (encode c dbg version traces) 0 [] =
           Inr (ts, length (unprunable c dbg version traces))"
  using zlib_unpack_packed [where pre = "[]" and emp = is_empty and x = traces and obj = ts
      and compress = "zlib_compress c" and decompress = "zlib_decompress c"
      and unpack_obj = "unpack_traces c"
      and pack_obj = "pack_history_context_wrapper c dbg version"
      and rest = "sections c traces" and dflt = "[]"] assms
  by (simp add: encode_v1 unprunable_def stored_def is_empty_def)

section \<open>Pruning an entry that was written\<close>

lemma sections_take_drop: "sections c traces = sections c (take n traces) @ sections c (drop n traces)"
  using sections_append [of c "take n traces" "drop n traces"] by simp

lemma pruner_after_encoded:
  assumes v: "version \<noteq> 0" and st: "stored c dbg version traces ts"
      and sh: "list_all2 (\<lambda>t a. set (trace_ids t) \<inter> set tids = {} \<or>
                              (\<forall>p\<in>set (prunables_of a). shrinks c p)) ts traces"
  shows "\<exists>pr. pruner_after c (encode c dbg version traces) tids n = (None, pr) \<and>
              pruner_at pr (sections c (drop n traces)) \<and> set (ids pr) \<subseteq> set tids \<and>
              length (buffer pr) = length (encode c dbg version traces)"
proof -
  let ?e = "encode c dbg version traces"
  let ?u = "unprunable c dbg version traces"
  let ?init = "trace_pruner_init ?e (length ?u) tids"
  have un: "zlib_unpack (zlib_decompress c) (unpack_traces c) ?e 0 [] = Inr (ts, length ?u)"
    using v st by (rule zlib_unpack_entry)
  have e: "?e = ?u @ sections c (take n traces) @ sections c (drop n traces)"
    using v sections_take_drop [of c traces n] by (simp add: encode_v1)
  have at: "pruner_at ?init (sections c (take n traces) @ sections c (drop n traces))"
    unfolding pruner_at_def trace_pruner_init_def using e by (intro exI [of _ ?u]) simp
  have "\<exists>pr'. prune_each c (take n ts) ?init = (None, pr') \<and>
          pruner_at pr' (sections c (drop n traces)) \<and> set (ids pr') \<subseteq> set tids \<and>
          length (buffer pr') = length (buffer ?init)"
  proof (rule prune_each_encoded [OF _ _ _ _ at])
    show "list_all2 (\<lambda>t a. same_shape t (trace a) (packed_trx a)) (take n ts) (take n traces)"
      using st by (auto simp add: stored_def intro: list_all2_takeI)
    show "\<forall>a\<in>set (take n traces). \<forall>p\<in>set (prunables_of a). symmetric c p"
      using st by (auto simp add: stored_def dest: in_set_takeD)
    show "list_all2 (\<lambda>t a. set (trace_ids t) \<inter> set tids = {} \<or>
                            (\<forall>p\<in>set (prunables_of a). shrinks c p)) (take n ts) (take n traces)"
      using sh by (rule list_all2_takeI)
    show "set (ids ?init) \<subseteq> set tids"
      by (simp add: trace_pruner_init_def)
  qed
  then show ?thesis
    using un by (auto simp add: pruner_after_def trace_pruner_init_def)
qed



lemma shrinks_fits:
  assumes "context_free_needs_signatures p" and "digest_fits c p"
      and "is_partial p \<longrightarrow> signatures_of p = []"
  shows "shrinks c p"
proof -
  from prune_cases [of c p] assms(1,3) obtain q where q: "prune c p = Inr q"
    by (auto simp add: context_free_needs_signatures_def)
  with packed_prune_le [OF assms(1,2) q] show ?thesis
    by (simp add: shrinks_def)
qed

lemma shrinks_all:
  assumes "\<forall>a\<in>set traces. \<forall>p\<in>set (prunables_of a).
             context_free_needs_signatures p \<and> digest_fits c p \<and>
             (is_partial p \<longrightarrow> signatures_of p = [])"
      and "length ts = length traces"
  shows "list_all2 (\<lambda>t a. set (trace_ids t) \<inter> set tids = {} \<or>
                           (\<forall>p\<in>set (prunables_of a). shrinks c p)) ts traces"
  using assms
  by (auto simp add: list_all2_conv_all_nth intro!: shrinks_fits)

section \<open>Decoding an entry that was written\<close>

lemma restore_partial_with_prunable:
  "restore_partial ptrx p =
     (if is_partial p then Inl (state_history_exception ''Not implemented'')
      else Inr (with_prunable ptrx p))"
  by (cases ptrx; cases p) simp_all

lemma visit_restore_encoded:
  assumes "same_shape t ct ptrx"
      and "\<forall>pt\<in>set (carried ct ptrx). symmetric c (get_prunable_data pt)"
  shows "visit_deserialized_trace_restore c
           (pre @ concat (map (\<lambda>pt. packed c (get_prunable_data pt)) (carried ct ptrx)) @ rest)
           t (length pre) =
         (if \<exists>pt\<in>set (carried ct ptrx). is_partial (get_prunable_data pt)
          then Inl (state_history_exception ''Not implemented'')
          else Inr (completed t ptrx,
                    length pre +
                      length (concat (map (\<lambda>pt. packed c (get_prunable_data pt))
                                        (carried ct ptrx)))))"
  using assms
proof (induction t ct ptrx rule: same_shape.induct)
  case (1 i failed part x ci rc cx ptrx)
  show ?case
  proof (cases ptrx)
    case None
    with "1.prems" show ?thesis by simp
  next
    case (Some pt)
    with "1.prems"(1) obtain p0 where part: "part = Some p0" and failed: "failed = []"
      by auto
    have sym: "symmetric c (get_prunable_data pt)"
      using "1.prems"(2) Some by simp
    show ?thesis
      using Some part failed unpack_packed [OF sym, of pre rest]
      by (simp add: restore_partial_with_prunable)
  qed
next
  case (2 i failed part x ci rc ft cx ptrx)
  from "2.prems"(1) obtain f fs where f: "failed = f # fs" "part = None" "same_shape f ft ptrx"
    by (auto split: list.splits)
  have c: "carried (chain_trace ci rc (Some ft) cx) ptrx = carried ft ptrx"
    by (cases ptrx) simp_all
  have sym: "\<forall>pt\<in>set (carried ft ptrx). symmetric c (get_prunable_data pt)"
    using "2.prems"(2) c by simp
  show ?case
    using "2.IH" [OF f(1) f(3) sym] f c by simp
qed

lemma restore_traces_encoded:
  assumes "list_all2 (\<lambda>t a. same_shape t (trace a) (packed_trx a)) ts traces"
      and "\<forall>a\<in>set traces. \<forall>p\<in>set (prunables_of a). symmetric c p"
  shows "restore_traces c (pre @ sections c traces @ rest) ts (length pre) =
         (if \<exists>a\<in>set traces. \<exists>p\<in>set (prunables_of a). is_partial p
          then Inl (state_history_exception ''Not implemented'')
          else Inr (completed_traces ts traces, length pre + length (sections c traces)))"
  using assms
proof (induction ts traces arbitrary: pre rule: list_all2_induct)
  case Nil
  then show ?case by (simp add: sections_def completed_traces_def)
next
  case (Cons t ts a traces)
  let ?s = "concat (map (\<lambda>pt. packed c (get_prunable_data pt)) (carried (trace a) (packed_trx a)))"
  have sym: "\<forall>pt\<in>set (carried (trace a) (packed_trx a)). symmetric c (get_prunable_data pt)"
    using Cons.prems by (simp add: prunables_of_def)
  have buf: "pre @ sections c (a # traces) @ rest = pre @ ?s @ (sections c traces @ rest)"
    by (simp add: sections_Cons prunables_of_def comp_def)
  have buf2: "pre @ sections c (a # traces) @ rest = (pre @ ?s) @ sections c traces @ rest"
    by (simp add: sections_Cons prunables_of_def comp_def)
  have v: "visit_deserialized_trace_restore c (pre @ sections c (a # traces) @ rest) t (length pre) =
           (if \<exists>pt\<in>set (carried (trace a) (packed_trx a)). is_partial (get_prunable_data pt)
            then Inl (state_history_exception ''Not implemented'')
            else Inr (completed t (packed_trx a), length pre + length ?s))"
    unfolding buf by (rule visit_restore_encoded [OF Cons.hyps(1) sym])
  have r: "restore_traces c (pre @ sections c (a # traces) @ rest) ts (length (pre @ ?s)) =
           (if \<exists>a\<in>set traces. \<exists>p\<in>set (prunables_of a). is_partial p
            then Inl (state_history_exception ''Not implemented'')
            else Inr (completed_traces ts traces, length (pre @ ?s) + length (sections c traces)))"
    unfolding buf2 using Cons.prems by (intro Cons.IH) simp
  have len: "length (sections c (a # traces)) = length ?s + length (sections c traces)"
    by (simp add: sections_Cons prunables_of_def comp_def)
  show ?case
    using v r len
    by (auto simp add: completed_traces_def prunables_of_def)
qed

section \<open>The sample entries are length-symmetric\<close>

lemma sample_symmetric_signatures:
  "length s = 66 \<Longrightarrow> symmetric_signatures sample_codec [s]"
  by (simp add: symmetric_signatures_def sample_codec_def sample_pack_signatures_def
      sample_unpack_signatures_def)

lemma sample_symmetric_none: "length d = 32 \<Longrightarrow> symmetric_none sample_codec d"
  by (simp add: symmetric_none_def sample_codec_def sample_unpack_none_def)

lemma sample_symmetric_segments:
  "symmetric_zlib (zlib_compress sample_codec) (zlib_decompress sample_codec)
     (unpack_segments sample_codec) (pack_segments sample_codec [[1, 2, 3]]) [[1, 2, 3]]"
  by (simp add: symmetric_zlib_def sample_codec_def sample_compress_def sample_decompress_def
      sample_pack_segments_def sample_unpack_segments_def)

lemma sample_symmetric_unprunable:
  "symmetric_zlib (zlib_compress sample_codec) (zlib_decompress sample_codec)
     (unpack_traces sample_codec) [1, 2] stored_traces"
  by (simp add: symmetric_zlib_def sample_codec_def sample_compress_def sample_decompress_def
      stored_traces_def)

lemma signed_stored: "stored sample_codec False 1 signed_traces stored_traces"
proof -
  have 1: "pack_history_context_wrapper sample_codec False 1 signed_traces = [1, 2]"
    by (simp add: sample_codec_def signed_traces_def)
  have 2: "list_all2 (\<lambda>t a. same_shape t (trace a) (packed_trx a)) stored_traces signed_traces"
    by (simp add: signed_traces_def stored_traces_def)
  have 3: "\<forall>a\<in>set signed_traces. \<forall>p\<in>set (prunables_of a). symmetric sample_codec p"
    using sample_symmetric_segments
    by (simp add: signed_traces_def prunables_of_def sample_symmetric_signatures)
  show ?thesis
    using 1 2 3 sample_symmetric_unprunable by (simp add: stored_def)
qed


lemma plain_stored: "stored sample_codec False 1 plain_traces stored_traces"
proof -
  have 1: "pack_history_context_wrapper sample_codec False 1 plain_traces = [1, 2]"
    by (simp add: sample_codec_def plain_traces_def)
  have 2: "list_all2 (\<lambda>t a. same_shape t (trace a) (packed_trx a)) stored_traces plain_traces"
    by (simp add: plain_traces_def stored_traces_def)
  have 3: "\<forall>a\<in>set plain_traces. \<forall>p\<in>set (prunables_of a). symmetric sample_codec p"
    using sample_symmetric_segments
    by (simp add: plain_traces_def prunables_of_def sample_symmetric_signatures
        sample_symmetric_none)
  show ?thesis
    using 1 2 3 sample_symmetric_unprunable by (simp add: stored_def)
qed


lemma plain_fits:
  "\<forall>a\<in>set plain_traces. \<forall>p\<in>set (prunables_of a).
     context_free_needs_signatures p \<and> digest_fits sample_codec p \<and>
     (is_partial p \<longrightarrow> signatures_of p = [])"
  by (simp add: plain_traces_def prunables_of_def context_free_needs_signatures_def
      digest_fits_def sample_codec_def sample_pack_signatures_def)

section \<open>The write cursor and the read cursor\<close>

text \<open>
  C1, as the code has it. Take an entry written by \<^verbatim>\<open>trace_converter::pack\<close> in a
  version other than 0, with length-symmetric serialisers, such that every prunable data
  in it has signatures whenever it has context-free segments and a digest that takes at
  most four bytes more than its signatures, and such that none in the state \<^verbatim>\<open>partial\<close>
  has signatures (on these \<^verbatim>\<open>prune_all\<close> throws). Then for every list of ids and every
  \<open>n\<close>, after the first \<open>n\<close> traces (after the initial positioning for \<open>n = 0\<close>; a
  trace has at most one prunable section, by \<open>carried_at_most_one\<close>) the pruner has not
  thrown, its write cursor is at or behind its read cursor, and the buffer from the read
  cursor on is still the entry's.
\<close>

theorem write_cursor_not_ahead:
  assumes "version \<noteq> 0" and "stored c dbg version traces ts"
      and "\<forall>a\<in>set traces. \<forall>p\<in>set (prunables_of a).
             context_free_needs_signatures p \<and> digest_fits c p \<and>
             (is_partial p \<longrightarrow> signatures_of p = [])"
  shows "\<exists>pr. pruner_after c (encode c dbg version traces) tids n = (None, pr) \<and>
              write_strm pr \<le> read_strm pr \<and>
              drop (read_strm pr) (buffer pr) =
                drop (read_strm pr) (encode c dbg version traces)"
proof -
  have len: "length ts = length traces"
    using assms(2) by (auto simp add: stored_def dest: list_all2_lengthD)
  from pruner_after_encoded [OF assms(1,2) shrinks_all [OF assms(3) len], of tids n]
  obtain pr where pr: "pruner_after c (encode c dbg version traces) tids n = (None, pr)"
      "pruner_at pr (sections c (drop n traces))"
      "length (buffer pr) = length (encode c dbg version traces)"
    by blast
  from pr(2) obtain pre where pre: "buffer pr = pre @ sections c (drop n traces)"
      "read_strm pr = length pre" "write_strm pr \<le> length pre"
    by (auto simp add: pruner_at_def)
  have e: "encode c dbg version traces =
             (unprunable c dbg version traces @ sections c (take n traces)) @
               sections c (drop n traces)"
    using assms(1) sections_take_drop [of c traces n] by (simp add: encode_v1)
  have "length pre = length (unprunable c dbg version traces @ sections c (take n traces))"
    using pr(3) pre(1) e by (metis add_right_cancel length_append)
  then have "drop (read_strm pr) (encode c dbg version traces) = sections c (drop n traces)"
    using e pre(2) by (metis append_eq_conv_conj)
  then show ?thesis
    using pr(1) pre by auto
qed

text \<open>
  A value with a signature and a segment, then a value in the state \<^verbatim>\<open>none\<close>; both ids
  are on the list.
\<close>

theorem write_cursor_not_ahead_witness:
  "stored sample_codec False 1 plain_traces stored_traces \<and>
   (\<exists>pr. pruner_after sample_codec (encode sample_codec False 1 plain_traces) [2, 1] 2 =
            (None, pr) \<and>
          write_strm pr \<le> read_strm pr \<and>
          drop (read_strm pr) (buffer pr) =
            drop (read_strm pr) (encode sample_codec False 1 plain_traces))"
  using plain_stored
    write_cursor_not_ahead [OF _ plain_stored plain_fits, of "[2, 1]" 2]
  by simp

text \<open>
  C1 as the specification states it, for every entry that was written, fails. The first
  transaction of \<open>unsigned_traces\<close> has a segment and no signature: its section takes the
  16 bytes from offset 8 to 24, and \<^verbatim>\<open>prune\<close> replaces it by 33 bytes. After this first
  section the read cursor is at 24 and the write cursor at 41: the first 17 bytes of the
  second section are overwritten before they are read.
\<close>

theorem write_cursor_overtakes:
  "fst (pruner_after sample_codec (encode sample_codec False 1 unsigned_traces) [1] 1) = None \<and>
   read_strm (snd (pruner_after sample_codec (encode sample_codec False 1 unsigned_traces) [1] 1)) = 24 \<and>
   write_strm (snd (pruner_after sample_codec (encode sample_codec False 1 unsigned_traces) [1] 1)) = 41"
  by code_simp

section \<open>Pruning with ids that match no trace\<close>



section \<open>Prunable data in the state partial\<close>




text \<open>
  C5, as the code has it. Decoding an entry written in a version other than 0, with
  length-symmetric serialisers, throws \<^verbatim>\<open>state_history_exception\<close> with the message
  \<^verbatim>\<open>Not implemented\<close> as soon as one of its prunable sections is in the state
  \<^verbatim>\<open>partial\<close>: \<^verbatim>\<open>restore_partial\<close> asserts \<^verbatim>\<open>false\<close> there.
\<close>

theorem decode_partial_not_implemented:
  assumes "version \<noteq> 0" and "stored c dbg version traces ts"
      and "a \<in> set traces" and "p \<in> set (prunables_of a)" and "is_partial p"
  shows "to_traces_bin_v0 c (encode c dbg version traces) version =
           Inl (state_history_exception ''Not implemented'')"
proof -
  have un: "zlib_unpack (zlib_decompress c) (unpack_traces c) (encode c dbg version traces) 0 [] =
              Inr (ts, length (unprunable c dbg version traces))"
    using assms(1,2) by (rule zlib_unpack_entry)
  have "restore_traces c (unprunable c dbg version traces @ sections c traces @ []) ts
          (length (unprunable c dbg version traces)) =
        Inl (state_history_exception ''Not implemented'')"
    using assms(2-5) by (subst restore_traces_encoded) (auto simp add: stored_def)
  then show ?thesis
    using assms(1) un by (simp add: to_traces_bin_v0_def encode_v1)
qed

theorem decode_partial_not_implemented_witness:
  "stored sample_codec False 1 signed_traces stored_traces \<and>
   to_traces_bin_v0 sample_codec (encode sample_codec False 1 signed_traces) 1 =
     Inl (state_history_exception ''Not implemented'')"
proof -
  have a: "signed_traces ! 1 \<in> set signed_traces"
    by (simp add: signed_traces_def)
  have p: "partial [replicate 66 9] [] \<in> set (prunables_of (signed_traces ! 1))"
    by (simp add: signed_traces_def prunables_of_def)
  from decode_partial_not_implemented [OF _ signed_stored a p] signed_stored
  show ?thesis by simp
qed

text \<open>
  C5 as the specification states it fails: the entry of one transaction in the state
  \<^verbatim>\<open>partial\<close>, without signatures and segments, does not decode.
\<close>

theorem decode_partial_throws:
  "to_traces_bin_v0 sample_codec (encode sample_codec False 1 partial_traces) 1 =
     Inl (state_history_exception ''Not implemented'')"
  by code_simp

section \<open>Encoding, then decoding\<close>

text \<open>
  C3, as the code has it, for traces none of which carries prunable data in the state
  \<^verbatim>\<open>partial\<close>. In version 0 the decoder returns the serialised traces that the encoder
  compressed, when inflating undoes compressing on them. In every other version, with
  length-symmetric serialisers, it returns the serialisation of the traces held by the
  unprunable section, each partial transaction completed with exactly the signatures and
  the context-free data of its packed transaction.
\<close>

theorem decode_encode:
  assumes "zlib_decompress c (zlib_compress c (pack_history_context_wrapper c dbg 0 traces)) =
             Some (pack_history_context_wrapper c dbg 0 traces)"
      and "version \<noteq> 0" and "stored c dbg version traces ts"
      and "\<forall>a\<in>set traces. \<forall>p\<in>set (prunables_of a). \<not> is_partial p"
  shows "to_traces_bin_v0 c (encode c dbg 0 traces) 0 =
           Inr (pack_history_context_wrapper c dbg 0 traces) \<and>
         to_traces_bin_v0 c (encode c dbg version traces) version =
           Inr (pack_traces c (completed_traces ts traces))"
proof -
  have un: "zlib_unpack (zlib_decompress c) (unpack_traces c) (encode c dbg version traces) 0 [] =
              Inr (ts, length (unprunable c dbg version traces))"
    using assms(2,3) by (rule zlib_unpack_entry)
  have "restore_traces c (unprunable c dbg version traces @ sections c traces @ []) ts
          (length (unprunable c dbg version traces)) =
        Inr (completed_traces ts traces,
             length (unprunable c dbg version traces) + length (sections c traces))"
    using assms(3,4) by (subst restore_traces_encoded) (auto simp add: stored_def)
  then have "to_traces_bin_v0 c (encode c dbg version traces) version =
               Inr (pack_traces c (completed_traces ts traces))"
    using assms(2) un by (simp add: to_traces_bin_v0_def encode_v1)
  moreover have "to_traces_bin_v0 c (encode c dbg 0 traces) 0 =
                   Inr (pack_history_context_wrapper c dbg 0 traces)"
    using assms(1) by (simp add: to_traces_bin_v0_def encode_v0)
  ultimately show ?thesis by simp
qed

theorem decode_encode_witness:
  "stored sample_codec False 1 plain_traces stored_traces \<and>
   to_traces_bin_v0 sample_codec (encode sample_codec False 0 plain_traces) 0 =
     Inr (pack_history_context_wrapper sample_codec False 0 plain_traces) \<and>
   to_traces_bin_v0 sample_codec (encode sample_codec False 1 plain_traces) 1 =
     Inr (pack_traces sample_codec (completed_traces stored_traces plain_traces))"
proof -
  have z: "zlib_decompress sample_codec
             (zlib_compress sample_codec
                (pack_history_context_wrapper sample_codec False 0 plain_traces)) =
           Some (pack_history_context_wrapper sample_codec False 0 plain_traces)"
    by (simp add: sample_codec_def sample_compress_def sample_decompress_def plain_traces_def)
  have n: "\<forall>a\<in>set plain_traces. \<forall>p\<in>set (prunables_of a). \<not> is_partial p"
    by (simp add: plain_traces_def prunables_of_def)
  from decode_encode [OF z _ plain_stored n] plain_stored
  show ?thesis by simp
qed

text \<open>
  C3 as the specification states it, for every trace sequence, fails: \<open>signed_traces\<close>
  holds a transaction in the state \<^verbatim>\<open>partial\<close>, and decoding its entry throws.
\<close>

theorem decode_encode_partial_fails:
  "to_traces_bin_v0 sample_codec (encode sample_codec False 1 signed_traces) 1 =
     Inl (state_history_exception ''Not implemented'')"
  by code_simp

end
